theory Spec2Isabelle
  imports Complex_Main "HOL-Library.AList"
begin

section \<open>Exceptions as values\<close>

text \<open>
  The training driver \<^verbatim>\<open>scripts/training.py\<close> is one function,
  \<^verbatim>\<open>training_loop\<close>, with a nested helper \<^verbatim>\<open>replace_optimizable_inputs\<close>.
  Every place where the Python raises is a branch of the model that returns \<open>Inl\<close> of
  the exception; \<open>Inr\<close> carries the value of a normal return.
\<close>

datatype error =
    KeyError
  | IndexError
  | RuntimeError
  | ValueError
  | NameError
  | ZeroDivisionError
  | FileNotFoundError
  | UnpicklingError

definition then_do :: "error + 'a \<Rightarrow> ('a \<Rightarrow> error + 'b) \<Rightarrow> error + 'b" where
  "then_do m f = (case m of Inl e \<Rightarrow> Inl e | Inr x \<Rightarrow> f x)"

definition getitem :: "('k \<Rightarrow> 'v option) \<Rightarrow> 'k \<Rightarrow> error + 'v" where
  "getitem d k = (case d k of None \<Rightarrow> Inl KeyError | Some v \<Rightarrow> Inr v)"

section \<open>Input substitution: \<^verbatim>\<open>replace_optimizable_inputs\<close> (lines 230-243)\<close>

text \<open>
  A batch is a pair of dictionaries \<^verbatim>\<open>inputs\<close> and \<^verbatim>\<open>targets\<close> from keys to tensor
  objects. Two dictionary entries can be the same object, and line 243 writes into an
  object in place, so the model keeps an explicit heap: a dictionary maps a key to an
  address, the heap maps an address to the tensor stored there. A new tensor (the result
  of an embedding lookup) is allocated at the end of the heap.

  Tensors are nested lists: \<open>Ids\<close> is the integer tensor of frame ids of shape [B],
  \<open>Rows\<close> a float tensor of shape [B, D], \<open>Mats\<close> a float tensor of shape [B, R, C]
  (the extrinsic matrices, [B, 4, 4]). The substitution moves values and does no
  arithmetic on them.
\<close>

datatype tensor =
    Ids "int list"
  | Rows "real list list"
  | Mats "real list list list"

record batch_env =
  heap :: "tensor list"
  inputs :: "string \<Rightarrow> nat option"
  targets :: "string \<Rightarrow> nat option"

text \<open>The four flags of lines 50-53, and the \<^verbatim>\<open>nn.ModuleDict\<close> of lines 135-157: one
  embedding table (a row per training frame) for each flag that is set. The camera table
  is built with width 3 (line 156), so its rows are triples.\<close>

record opt_flags =
  optimize_latent :: bool
  optimize_expression :: bool
  optimize_pose :: bool
  optimize_camera :: bool

record input_params =
  frame_latent :: "real list list option"
  expression :: "real list list option"
  pose :: "real list list option"
  cam_trans :: "(real \<times> real \<times> real) list option"

text \<open>\<^verbatim>\<open>input_params[name]\<close>: a module that was never added raises \<^verbatim>\<open>KeyError\<close>.\<close>

definition module_of :: "'w option \<Rightarrow> error + 'w" where
  "module_of table = (case table of None \<Rightarrow> Inl KeyError | Some W \<Rightarrow> Inr W)"

text \<open>Calling an \<^verbatim>\<open>nn.Embedding\<close> on a tensor of ids: row \<open>i\<close> of the table for each
  id \<open>i\<close>; an id outside \<open>0 .. N-1\<close> raises \<^verbatim>\<open>IndexError\<close>, and a tensor that is not an
  integer tensor is refused.\<close>

definition embedding :: "'w list \<Rightarrow> tensor \<Rightarrow> error + 'w list" where
  "embedding W t =
     (case t of
        Ids js \<Rightarrow>
          if list_all (\<lambda>j. 0 \<le> j \<and> j < int (length W)) js
          then Inr (map (\<lambda>j. W ! nat j) js)
          else Inl IndexError
      | Rows _ \<Rightarrow> Inl RuntimeError
      | Mats _ \<Rightarrow> Inl RuntimeError)"

text \<open>\<^verbatim>\<open>torch.full_like(t, f)\<close>: a new tensor of the shape and type of \<open>t\<close>, every entry \<open>f\<close>.\<close>

definition full_like :: "tensor \<Rightarrow> int \<Rightarrow> tensor" where
  "full_like t f =
     (case t of
        Ids js \<Rightarrow> Ids (map (\<lambda>_. f) js)
      | Rows rs \<Rightarrow> Rows (map (map (\<lambda>_. of_int f)) rs)
      | Mats ms \<Rightarrow> Mats (map (map (map (\<lambda>_. of_int f))) ms))"

text \<open>The object behind an address. A dictionary entry always refers to a live object;
  the range check only keeps the model total.\<close>

definition load_tensor :: "tensor list \<Rightarrow> nat \<Rightarrow> error + tensor" where
  "load_tensor h a = (if a < length h then Inr (h ! a) else Inl RuntimeError)"

text \<open>Line 232:
  \<^verbatim>\<open>ids = torch.full_like(inputs['id'], fixed_id) if fixed_id else inputs['id']\<close>.
  The condition is the truth value of \<^verbatim>\<open>fixed_id\<close>: \<^verbatim>\<open>None\<close> is false, and so is the
  integer 0.\<close>

definition truthy :: "int option \<Rightarrow> bool" where
  "truthy fixed_id = (case fixed_id of None \<Rightarrow> False | Some f \<Rightarrow> f \<noteq> 0)"

definition select_ids :: "int option \<Rightarrow> batch_env \<Rightarrow> error + tensor" where
  "select_ids fixed_id env =
     then_do (getitem (inputs env) ''id'') (\<lambda>a.
     then_do (load_tensor (heap env) a) (\<lambda>t.
       if truthy fixed_id then Inr (full_like t (the fixed_id)) else Inr t))"

text \<open>\<^verbatim>\<open>inputs[key] = input_params[key](ids)\<close> (lines 234, 237, 240): the right-hand side
  is a new tensor; the dictionary entry is rebound to it.\<close>

definition store_lookup :: "string \<Rightarrow> real list list option \<Rightarrow> tensor \<Rightarrow> batch_env \<Rightarrow> error + batch_env" where
  "store_lookup key table ids env =
     then_do (module_of table) (\<lambda>W.
     then_do (embedding W ids) (\<lambda>rows.
       Inr (env\<lparr>heap := heap env @ [Rows rows],
                inputs := (inputs env)(key \<mapsto> length (heap env))\<rparr>)))"

text \<open>\<^verbatim>\<open>targets[key] = inputs[key]\<close> (lines 236, 239, 242): the entry of \<^verbatim>\<open>targets\<close> is bound
  to the same object, not to a copy.\<close>

definition keep_original :: "string \<Rightarrow> batch_env \<Rightarrow> error + batch_env" where
  "keep_original key env =
     then_do (getitem (inputs env) key) (\<lambda>a.
       Inr (env\<lparr>targets := (targets env)(key \<mapsto> a)\<rparr>))"

text \<open>\<^verbatim>\<open>t[:, :3, 3] = v\<close> (line 243) on one matrix: entry \<open>[r][3]\<close> of the rows \<open>r < 3\<close>.\<close>

definition set_translation :: "real list list \<Rightarrow> real \<times> real \<times> real \<Rightarrow> real list list" where
  "set_translation m t =
     (case t of (x, y, z) \<Rightarrow>
        m[0 := (m ! 0)[3 := x], 1 := (m ! 1)[3 := y], 2 := (m ! 2)[3 := z]])"

definition has_translation :: "real list list \<Rightarrow> bool" where
  "has_translation m = list_all (\<lambda>row. 3 < length row) (take 3 m)"

text \<open>The sliced assignment on the whole tensor. Only a tensor of three dimensions can
  be indexed by \<^verbatim>\<open>[:, :3, 3]\<close>; column 3 has to exist (\<^verbatim>\<open>IndexError\<close> otherwise); the
  value of shape [B', 3] has to fit the slice of shape [B, 3], where a value with
  B' = 1 is broadcast to every matrix.\<close>

definition assign_translation :: "tensor \<Rightarrow> (real \<times> real \<times> real) list \<Rightarrow> error + tensor" where
  "assign_translation t v =
     (case t of
        Ids _ \<Rightarrow> Inl IndexError
      | Rows _ \<Rightarrow> Inl IndexError
      | Mats ms \<Rightarrow>
          if \<not> list_all has_translation ms then Inl IndexError
          else if \<not> list_all (\<lambda>m. 3 \<le> length m) ms then Inl RuntimeError
          else if length v = length ms then Inr (Mats (map2 set_translation ms v))
          else if length v = 1 then Inr (Mats (map (\<lambda>m. set_translation m (hd v)) ms))
          else Inl RuntimeError)"

text \<open>Line 243, \<^verbatim>\<open>inputs['extrinsic'][:, :3, 3] = input_params['cam_trans'](ids)\<close>: the
  right-hand side is evaluated first, then the object \<^verbatim>\<open>inputs['extrinsic']\<close> is
  written in place. The dictionary is not rebound.\<close>

definition write_translation :: "(real \<times> real \<times> real) list option \<Rightarrow> tensor \<Rightarrow> batch_env \<Rightarrow> error + batch_env" where
  "write_translation table ids env =
     then_do (module_of table) (\<lambda>W.
     then_do (embedding W ids) (\<lambda>v.
     then_do (getitem (inputs env) ''extrinsic'') (\<lambda>a.
     then_do (load_tensor (heap env) a) (\<lambda>t.
     then_do (assign_translation t v) (\<lambda>t'.
       Inr (env\<lparr>heap := (heap env)[a := t']\<rparr>))))))"

definition replace_optimizable_inputs :: "opt_flags \<Rightarrow> input_params \<Rightarrow> int option \<Rightarrow> batch_env \<Rightarrow> error + batch_env" where
  "replace_optimizable_inputs fl ps fixed_id env =
     then_do (select_ids fixed_id env) (\<lambda>ids.
     then_do (if optimize_latent fl
              then store_lookup ''frame_latent'' (frame_latent ps) ids env
              else Inr env) (\<lambda>env1.
     then_do (if optimize_expression fl
              then then_do (keep_original ''expression'' env1)
                     (store_lookup ''expression'' (expression ps) ids)
              else Inr env1) (\<lambda>env2.
     then_do (if optimize_pose fl
              then then_do (keep_original ''pose'' env2)
                     (store_lookup ''pose'' (pose ps) ids)
              else Inr env2) (\<lambda>env3.
     if optimize_camera fl
     then then_do (keep_original ''extrinsic'' env3)
            (write_translation (cam_trans ps) ids)
     else Inr env3))))"

text \<open>What a reader of a dictionary sees under a key: the tensor behind the entry.\<close>

definition tensor_at :: "tensor list \<Rightarrow> (string \<Rightarrow> nat option) \<Rightarrow> string \<Rightarrow> tensor option" where
  "tensor_at h d key = (case d key of None \<Rightarrow> None | Some a \<Rightarrow> if a < length h then Some (h ! a) else None)"

text \<open>The frame property of line 243 in the claim's words: two tensors of matrices have
  the same shape and agree on every entry other than \<open>[b][r][3]\<close> with \<open>r < 3\<close>.\<close>

definition same_outside_translation :: "real list list list \<Rightarrow> real list list list \<Rightarrow> bool" where
  "same_outside_translation ms ms' =
     (length ms' = length ms \<and>
      (\<forall>b<length ms. length (ms' ! b) = length (ms ! b) \<and>
         (\<forall>r<length (ms ! b). length (ms' ! b ! r) = length (ms ! b ! r) \<and>
            (\<forall>c<length (ms ! b ! r).
               \<not> (r < 3 \<and> c = 3) \<longrightarrow> ms' ! b ! r ! c = ms ! b ! r ! c))))"

section \<open>Running average of the loss terms (lines 275, 304-311)\<close>

text \<open>
  \<^verbatim>\<open>avg_loss_dict\<close> maps the name of a loss term to a \<^verbatim>\<open>deque(maxlen=avg_loss_it)\<close>. A
  Python dictionary keeps its keys in insertion order; an association list updated
  with \<open>AList.update\<close> does the same (a new key goes to the end). Loss values are
  floating-point numbers, read here as real numbers; \<^verbatim>\<open>np.mean\<close> of an empty window is
  NaN, which is the value \<open>None\<close>.
\<close>

record deque =
  maxlen :: nat
  items :: "real list"

text \<open>\<^verbatim>\<open>deque(maxlen=n)\<close> raises \<^verbatim>\<open>ValueError\<close> for a negative \<open>n\<close>.\<close>

definition new_deque :: "int \<Rightarrow> error + deque" where
  "new_deque n = (if n < 0 then Inl ValueError else Inr \<lparr>maxlen = nat n, items = []\<rparr>)"

text \<open>\<^verbatim>\<open>d.append(x)\<close>: the value goes to the right end; a deque that is then longer than
  its \<^verbatim>\<open>maxlen\<close> drops its leftmost value.\<close>

definition deque_append :: "deque \<Rightarrow> real \<Rightarrow> deque" where
  "deque_append d x =
     (let ys = items d @ [x]
      in d\<lparr>items := (if maxlen d < length ys then tl ys else ys)\<rparr>)"

definition np_mean :: "real list \<Rightarrow> real option" where
  "np_mean xs = (if xs = [] then None else Some (sum_list xs / real (length xs)))"

text \<open>Lines 306-309: for every term of the loss dictionary, create its window on first
  sight and append the value.\<close>

fun push_losses :: "int \<Rightarrow> (string \<times> deque) list \<Rightarrow> (string \<times> real) list \<Rightarrow> error + (string \<times> deque) list" where
  "push_losses n avg [] = Inr avg"
| "push_losses n avg ((key, v) # rest) =
     then_do (case map_of avg key of None \<Rightarrow> new_deque n | Some d \<Rightarrow> Inr d) (\<lambda>d.
       push_losses n (AList.update key (deque_append d v) avg) rest)"

text \<open>Lines 310-311: every term ever seen is overwritten in \<^verbatim>\<open>loss_dict\<close> by the mean of
  its window.\<close>

definition smooth_losses :: "(string \<times> deque) list \<Rightarrow> (string \<times> real) list \<Rightarrow> (string \<times> real option) list" where
  "smooth_losses avg loss_dict =
     fold (\<lambda>(key, d). AList.update key (np_mean (items d))) avg
       (map (\<lambda>(key, v). (key, Some v)) loss_dict)"

definition update_running_average :: "int \<Rightarrow> (string \<times> deque) list \<Rightarrow> (string \<times> real) list
    \<Rightarrow> error + (string \<times> deque) list \<times> (string \<times> real option) list" where
  "update_running_average n avg loss_dict =
     then_do (push_losses n avg loss_dict) (\<lambda>avg'. Inr (avg', smooth_losses avg' loss_dict))"

text \<open>The windows after the loss dictionaries of several iterations in a row, and the
  values that these iterations push for one term.\<close>

fun feed_losses :: "int \<Rightarrow> (string \<times> deque) list \<Rightarrow> (string \<times> real) list list \<Rightarrow> error + (string \<times> deque) list" where
  "feed_losses n avg [] = Inr avg"
| "feed_losses n avg (loss_dict # rest) =
     then_do (push_losses n avg loss_dict) (\<lambda>avg'. feed_losses n avg' rest)"

definition values_of :: "string \<Rightarrow> (string \<times> real) list \<Rightarrow> real list" where
  "values_of key loss_dict = map snd (filter (\<lambda>kv. fst kv = key) loss_dict)"

definition pushed :: "string \<Rightarrow> (string \<times> real) list list \<Rightarrow> real list" where
  "pushed key loss_dicts = concat (map (values_of key) loss_dicts)"

section \<open>Validation loss across workers (lines 372-394)\<close>

text \<open>The loss terms of a validation batch are scalar floating point tensors. Their
  values are modelled as the real numbers they hold, and the three operations the
  evaluation applies to them are a parameter of the model: \<open>tensor_add\<close> is the in-place
  addition of two scalar tensors, \<open>tensor_sum\<close> is \<^verbatim>\<open>torch.sum(...).item()\<close> over the
  gathered values of one term (line 394), and \<open>float_div\<close> is the division of that
  Python float by the batch count (line 394). With \<open>exact_arith\<close> the three are the
  operations of the real numbers, which no floating point format provides.\<close>

record tensor_arith =
  tensor_add :: "real \<Rightarrow> real \<Rightarrow> real"
  tensor_sum :: "real list \<Rightarrow> real"
  float_div :: "real \<Rightarrow> real \<Rightarrow> real"

definition exact_arith :: tensor_arith where
  "exact_arith = \<lparr>tensor_add = (\<lambda>a b. a + b), tensor_sum = sum_list, float_div = (\<lambda>a b. a / b)\<rparr>"

text \<open>Modelled from the spec: \<^verbatim>\<open>add_dict_to\<close> of \<^verbatim>\<open>utils/training_util.py\<close> is not among the
  sources. The spec has the evaluation "accumulate into a running sum" per term: the
  value of each term of the batch is added to the sum kept under its name, and a term
  seen for the first time starts its sum.\<close>

definition add_dict_to :: "tensor_arith \<Rightarrow> (string \<times> real) list \<Rightarrow> (string \<times> real) list \<Rightarrow> (string \<times> real) list" where
  "add_dict_to ar acc loss_dict =
     fold (\<lambda>(key, v) acc. AList.update key (case map_of acc key of None \<Rightarrow> v | Some s \<Rightarrow> tensor_add ar s v) acc)
       loss_dict acc"

text \<open>Lines 374-384 on one worker, from the sums and the count it has so far: the loss
  dictionary of every validation batch is added to the sums (line 380), the batch is
  counted (line 381), and the batch is visualised (line 384). The call of line 384
  reads \<^verbatim>\<open>output_dir\<close>, which is bound only on the local main process (lines 79-80): on
  every other process the first validation batch raises \<^verbatim>\<open>NameError\<close>, after lines
  380 and 381 and before the next batch.\<close>

fun eval_batches :: "tensor_arith \<Rightarrow> bool \<Rightarrow> (string \<times> real) list list \<Rightarrow> (string \<times> real) list \<Rightarrow> nat
    \<Rightarrow> error + (string \<times> real) list \<times> nat" where
  "eval_batches ar is_local_main [] val_loss_dict val_num_batches = Inr (val_loss_dict, val_num_batches)"
| "eval_batches ar is_local_main (loss_dict # rest) val_loss_dict val_num_batches =
     (if is_local_main
      then eval_batches ar is_local_main rest (add_dict_to ar val_loss_dict loss_dict) (val_num_batches + 1)
      else Inl NameError)"

text \<open>Lines 372-387 on one worker: the sums start from the empty dictionary and the count
  from 0 (lines 372-373), and after the batches the count is stored in the same
  dictionary under the key \<^verbatim>\<open>num_batches\<close> (line 387). A loss term of that name is
  overwritten by the count.\<close>

definition eval_worker :: "tensor_arith \<Rightarrow> bool \<Rightarrow> (string \<times> real) list list \<Rightarrow> error + (string \<times> real) list" where
  "eval_worker ar is_local_main batches =
     then_do (eval_batches ar is_local_main batches [] 0) (\<lambda>(val_loss_dict, val_num_batches).
     Inr (AList.update ''num_batches'' (real val_num_batches) val_loss_dict))"

text \<open>The workers run the same lines, each on its own validation batches; a worker is
  given by whether it is the local main process of its machine and by the loss
  dictionaries of its batches. The collective of line 388 needs the dictionary of
  every worker, so the evaluation has failed as soon as one worker has raised.\<close>

fun all_reports :: "tensor_arith \<Rightarrow> (bool \<times> (string \<times> real) list list) list \<Rightarrow> error + (string \<times> real) list list" where
  "all_reports ar [] = Inr []"
| "all_reports ar ((is_local_main, batches) # rest) =
     then_do (eval_worker ar is_local_main batches) (\<lambda>report.
     then_do (all_reports ar rest) (\<lambda>reports. Inr (report # reports)))"

text \<open>Line 388, \<^verbatim>\<open>accel.gather\<close>: every worker walks its own dictionary in order and each
  value is concatenated with the values the other workers contribute at the same
  position, in rank order. The workers must report the same keys in the same order;
  a collective that is not aligned is the error branch. The first dictionary of the
  list is the one of the coordinating worker.\<close>

definition gather :: "(string \<times> 'v) list list \<Rightarrow> error + (string \<times> 'v list) list" where
  "gather reports =
     (case reports of
        [] \<Rightarrow> Inl RuntimeError
      | local # _ \<Rightarrow>
          if list_all (\<lambda>r. map fst r = map fst local) reports
          then Inr (map (\<lambda>i. (fst (local ! i), map (\<lambda>r. snd (r ! i)) reports)) [0..<length local])
          else Inl RuntimeError)"

text \<open>Python's \<^verbatim>\<open>/\<close> on numbers: dividing by 0 raises.\<close>

definition py_truediv :: "real \<Rightarrow> real \<Rightarrow> error + real" where
  "py_truediv a b = (if b = 0 then Inl ZeroDivisionError else Inr (a / b))"

text \<open>\<^verbatim>\<open>dict.pop(key)\<close>: the value of the key, and the dictionary without it.\<close>

definition dict_pop :: "(string \<times> 'v) list \<Rightarrow> string \<Rightarrow> error + 'v \<times> (string \<times> 'v) list" where
  "dict_pop d key = (case map_of d key of None \<Rightarrow> Inl KeyError | Some v \<Rightarrow> Inr (v, AList.delete key d))"

text \<open>Lines 393-394: every term that is left in the dictionary becomes the sum of its
  gathered values divided by the count. The count is a Python integer, and dividing a
  float by the integer 0 raises.\<close>

fun divide_terms :: "tensor_arith \<Rightarrow> real \<Rightarrow> (string \<times> real list) list \<Rightarrow> error + (string \<times> real) list" where
  "divide_terms ar val_num_batches [] = Inr []"
| "divide_terms ar val_num_batches ((k, vs) # rest) =
     (if val_num_batches = 0 then Inl ZeroDivisionError
      else then_do (divide_terms ar val_num_batches rest) (\<lambda>rest'.
             Inr ((k, float_div ar (tensor_sum ar vs) val_num_batches) # rest')))"

text \<open>Lines 390-394 on a local main process: the gathered counts are taken out of the
  dictionary and summed (line 392; they are integers, and their sum is exact), and the
  remaining terms are divided.\<close>

definition average_validation :: "tensor_arith \<Rightarrow> (string \<times> real list) list \<Rightarrow> error + (string \<times> real) list" where
  "average_validation ar gathered =
     then_do (dict_pop gathered ''num_batches'') (\<lambda>(counts, val_loss_dict).
     divide_terms ar (sum_list counts) val_loss_dict)"

text \<open>One evaluation (lines 372-394) over all workers: the validation losses that a local
  main process holds afterwards, or the exception that ended the evaluation.\<close>

definition evaluate :: "tensor_arith \<Rightarrow> (bool \<times> (string \<times> real) list list) list \<Rightarrow> error + (string \<times> real) list" where
  "evaluate ar workers =
     then_do (all_reports ar workers) (\<lambda>reports.
     then_do (gather reports) (\<lambda>val_loss_dict.
     average_validation ar val_loss_dict))"

section \<open>Checkpoints: saving (lines 342-363) and resuming (lines 183-221)\<close>

text \<open>
  A checkpoint is a directory of up to four files. A file is absent, unreadable
  (\<^verbatim>\<open>torch.load\<close> raises on it), or stores what \<^verbatim>\<open>torch.save\<close> wrote. The state
  dictionaries of the model, the optimizers, the schedulers and the input store are
  values of one type \<open>'sd\<close> that the driver only passes on.
\<close>

datatype 'a pth_file = Absent | Corrupt | Stored 'a

definition torch_load :: "'a pth_file \<Rightarrow> error + 'a" where
  "torch_load f =
     (case f of
        Absent \<Rightarrow> Inl FileNotFoundError
      | Corrupt \<Rightarrow> Inl UnpicklingError
      | Stored v \<Rightarrow> Inr v)"

record 'sd model_ckpt =
  ck_it :: int
  ck_sample_count :: int
  ck_epoch :: real
  ck_model :: 'sd

record 'sd optim_ckpt =
  ck_optimizer :: 'sd
  ck_scheduler :: 'sd

record 'sd ckpt_dir =
  model_pth :: "'sd model_ckpt pth_file"
  optimizer_pth :: "'sd optim_ckpt pth_file"
  input_pth :: "'sd pth_file"
  optimizer_input_pth :: "'sd optim_ckpt pth_file"

text \<open>A checkpoint directory is \<^verbatim>\<open>checkpoints_dir/iter_<n>\<close> (lines 184, 343) or a path given
  by the user (\<^verbatim>\<open>load_from\<close>). The file system is the list of the directories that exist;
  reading in a directory that does not exist finds no file.\<close>

datatype path = IterDir int | UserPath string

definition empty_dir :: "'sd ckpt_dir" where
  "empty_dir = \<lparr>model_pth = Absent, optimizer_pth = Absent, input_pth = Absent,
                optimizer_input_pth = Absent\<rparr>"

definition read_dir :: "(path \<times> 'sd ckpt_dir) list \<Rightarrow> path \<Rightarrow> 'sd ckpt_dir" where
  "read_dir fs p = (case map_of fs p of None \<Rightarrow> empty_dir | Some d \<Rightarrow> d)"

text \<open>The objects that are saved and restored, each by its state dictionary.\<close>

record 'sd components =
  model :: 'sd
  optimizer :: 'sd
  scheduler :: 'sd
  input_store :: 'sd
  optimizer_input :: 'sd
  scheduler_input :: 'sd

text \<open>Lines 342-363. \<^verbatim>\<open>ensure_dir\<close> creates the directory when it is not there; the files of
  the input store are written only when inputs are optimized.\<close>

definition save_checkpoint :: "bool \<Rightarrow> 'sd components \<Rightarrow> int \<Rightarrow> int \<Rightarrow> real
    \<Rightarrow> (path \<times> 'sd ckpt_dir) list \<Rightarrow> (path \<times> 'sd ckpt_dir) list" where
  "save_checkpoint opt_inputs c it sample_count epoch fs =
     (let d0 = read_dir fs (IterDir it);
          d1 = d0\<lparr>model_pth := Stored \<lparr>ck_it = it, ck_sample_count = sample_count,
                                       ck_epoch = epoch, ck_model = model c\<rparr>,
                  optimizer_pth := Stored \<lparr>ck_optimizer = optimizer c,
                                           ck_scheduler = scheduler c\<rparr>\<rparr>;
          d2 = (if opt_inputs
                then d1\<lparr>input_pth := Stored (input_store c),
                        optimizer_input_pth := Stored \<lparr>ck_optimizer = optimizer_input c,
                                                       ck_scheduler = scheduler_input c\<rparr>\<rparr>
                else d1)
      in AList.update (IterDir it) d2 fs)"

text \<open>Modelled from the spec: \<^verbatim>\<open>find_latest_model_path\<close> of \<^verbatim>\<open>utils/misc_util.py\<close> is not
  among the sources. The spec has it scan "the checkpoints root for the highest
  iteration-numbered subdirectory", and return none when there is no such directory.\<close>

definition iteration_numbers :: "(path \<times> 'sd ckpt_dir) list \<Rightarrow> int list" where
  "iteration_numbers fs =
     concat (map (\<lambda>(p, d). case p of IterDir k \<Rightarrow> [k] | UserPath _ \<Rightarrow> []) fs)"

definition find_latest_model_path :: "(path \<times> 'sd ckpt_dir) list \<Rightarrow> path option" where
  "find_latest_model_path fs =
     (case iteration_numbers fs of
        [] \<Rightarrow> None
      | k # ks \<Rightarrow> Some (IterDir (fold max ks k)))"

text \<open>Lines 183-186. \<^verbatim>\<open>checkpoints_dir\<close> is assigned only on the local main process
  (lines 79-81), so reading it on another process raises \<^verbatim>\<open>NameError\<close>. In
  \<^verbatim>\<open>load_from or find_latest_model_path(checkpoints_dir)\<close> the right operand is evaluated
  only when \<^verbatim>\<open>load_from\<close> is \<^verbatim>\<open>None\<close> or the empty string.\<close>

definition resolve_checkpoint :: "bool \<Rightarrow> int option \<Rightarrow> string option
    \<Rightarrow> (path \<times> 'sd ckpt_dir) list \<Rightarrow> error + path option" where
  "resolve_checkpoint is_main load_iteration load_from fs =
     (case load_iteration of
        Some k \<Rightarrow> if is_main then Inr (Some (IterDir k)) else Inl NameError
      | None \<Rightarrow>
          if load_from \<noteq> None \<and> load_from \<noteq> Some []
          then Inr (Some (UserPath (the load_from)))
          else if is_main then Inr (find_latest_model_path fs)
          else Inl NameError)"

text \<open>The \<^verbatim>\<open>load_state_dict\<close> methods belong to the libraries, so they are parameters of
  the model. The model and the input store are loaded with \<^verbatim>\<open>strict=False\<close> and report
  their missing and unexpected keys; every one of them can raise. The loads of lines
  203, 212 and 213 stand inside a \<^verbatim>\<open>try\<close>, so the state they leave behind when they
  raise is part of their result.\<close>

record 'sd torch_api =
  model_load :: "'sd \<Rightarrow> 'sd \<Rightarrow> error + 'sd \<times> string list \<times> string list"
  optimizer_load :: "'sd \<Rightarrow> 'sd \<Rightarrow> error + 'sd"
  scheduler_load :: "'sd \<Rightarrow> 'sd \<Rightarrow> error + 'sd"
  input_load :: "'sd \<Rightarrow> 'sd \<Rightarrow> 'sd \<times> (error + string list \<times> string list)"
  optimizer_input_load :: "'sd \<Rightarrow> 'sd \<Rightarrow> 'sd \<times> error option"
  scheduler_input_load :: "'sd \<Rightarrow> 'sd \<Rightarrow> 'sd \<times> error option"

text \<open>What \<^verbatim>\<open>accel.print\<close> writes while resuming.\<close>

datatype message =
    UnexpectedModelKeys "string list"
  | MissingModelKeys "string list"
  | UnexpectedInputKeys "string list"
  | MissingInputKeys "string list"
  | MismatchedInputOptimizer
  | MismatchedInputState
  | LoadedFrom path

definition report_keys :: "(string list \<Rightarrow> message) \<Rightarrow> (string list \<Rightarrow> message)
    \<Rightarrow> string list \<Rightarrow> string list \<Rightarrow> message list" where
  "report_keys unexpected_msg missing_msg missing_keys unexpected_keys =
     (if unexpected_keys \<noteq> [] then [unexpected_msg unexpected_keys] else []) @
     (if missing_keys \<noteq> [] then [missing_msg missing_keys] else [])"

text \<open>Lines 200-217. The \<^verbatim>\<open>torch.load\<close> of \<^verbatim>\<open>input.pth\<close> (line 201) stands before the
  outer \<^verbatim>\<open>try\<close>. The outer \<^verbatim>\<open>try\<close> holds the load of the input store and the
  \<^verbatim>\<open>torch.load\<close> of \<^verbatim>\<open>optimizer_input.pth\<close>; the inner \<^verbatim>\<open>try\<close> holds the loads of the
  input optimizer and scheduler.\<close>

definition restore_inputs :: "'sd torch_api \<Rightarrow> 'sd ckpt_dir \<Rightarrow> 'sd components
    \<Rightarrow> error + 'sd components \<times> message list" where
  "restore_inputs api d c =
     then_do (torch_load (input_pth d)) (\<lambda>input_state.
       case input_load api input_state (input_store c) of
         (p, Inl e) \<Rightarrow> Inr (c\<lparr>input_store := p\<rparr>, [MismatchedInputState])
       | (p, Inr (missing_keys, unexpected_keys)) \<Rightarrow>
           (let c1 = c\<lparr>input_store := p\<rparr>;
                msgs = report_keys UnexpectedInputKeys MissingInputKeys missing_keys unexpected_keys
            in case torch_load (optimizer_input_pth d) of
                 Inl e \<Rightarrow> Inr (c1, msgs @ [MismatchedInputState])
               | Inr optim_input_state \<Rightarrow>
                   (case optimizer_input_load api (ck_optimizer optim_input_state) (optimizer_input c1) of
                      (oi, Some e) \<Rightarrow>
                        Inr (c1\<lparr>optimizer_input := oi\<rparr>, msgs @ [MismatchedInputOptimizer])
                    | (oi, None) \<Rightarrow>
                        (case scheduler_input_load api (ck_scheduler optim_input_state) (scheduler_input c1) of
                           (si, Some e) \<Rightarrow>
                             Inr (c1\<lparr>optimizer_input := oi, scheduler_input := si\<rparr>,
                                  msgs @ [MismatchedInputOptimizer])
                         | (si, None) \<Rightarrow>
                             Inr (c1\<lparr>optimizer_input := oi, scheduler_input := si\<rparr>, msgs)))))"

text \<open>Lines 187-221: the result is the restored \<^verbatim>\<open>it\<close> and \<^verbatim>\<open>sample_count\<close>, the
  components, and the messages printed. Without a checkpoint both counters are 0.\<close>

definition restore :: "'sd torch_api \<Rightarrow> bool \<Rightarrow> (path \<times> 'sd ckpt_dir) list \<Rightarrow> path option
    \<Rightarrow> 'sd components \<Rightarrow> error + int \<times> int \<times> 'sd components \<times> message list" where
  "restore api opt_inputs fs last_ckpt_dir c =
     (case last_ckpt_dir of
        None \<Rightarrow> Inr (0, 0, c, [])
      | Some p \<Rightarrow>
          (let d = read_dir fs p in
           then_do (torch_load (model_pth d)) (\<lambda>model_state.
           then_do (model_load api (ck_model model_state) (model c)) (\<lambda>(m, missing_keys, unexpected_keys).
           then_do (torch_load (optimizer_pth d)) (\<lambda>optim_state.
           then_do (optimizer_load api (ck_optimizer optim_state) (optimizer c)) (\<lambda>opt.
           then_do (scheduler_load api (ck_scheduler optim_state) (scheduler c)) (\<lambda>sch.
           then_do (if opt_inputs
                    then restore_inputs api d (c\<lparr>model := m, optimizer := opt, scheduler := sch\<rparr>)
                    else Inr (c\<lparr>model := m, optimizer := opt, scheduler := sch\<rparr>, [])) (\<lambda>(c', msgs).
             Inr (ck_it model_state, ck_sample_count model_state, c',
                  report_keys UnexpectedModelKeys MissingModelKeys missing_keys unexpected_keys
                    @ msgs @ [LoadedFrom p])))))))))"

definition resume :: "'sd torch_api \<Rightarrow> bool \<Rightarrow> bool \<Rightarrow> int option \<Rightarrow> string option
    \<Rightarrow> (path \<times> 'sd ckpt_dir) list \<Rightarrow> 'sd components
    \<Rightarrow> error + int \<times> int \<times> 'sd components \<times> message list" where
  "resume api opt_inputs is_main load_iteration load_from fs c =
     then_do (resolve_checkpoint is_main load_iteration load_from fs) (\<lambda>last_ckpt_dir.
       restore api opt_inputs fs last_ckpt_dir c)"

section \<open>The training loop (lines 272-416)\<close>

record config =
  iterations :: int
  batch_size :: int
  num_processes :: nat
  log_it :: int
  show_it :: int
  save_it :: int
  eval_it :: int
  avg_loss_it :: int
  is_local_main_process :: bool
  flags :: opt_flags
  len_train_dataset :: nat
  len_val_dataset :: nat

text \<open>Line 133.\<close>

definition optimize_inputs :: "opt_flags \<Rightarrow> bool" where
  "optimize_inputs fl =
     (optimize_latent fl \<or> optimize_expression fl \<or> optimize_pose fl \<or> optimize_camera fl)"

text \<open>What an iteration leaves behind outside its own variables: a record in the
  training log, a progress line, a checkpoint, an evaluation pass.\<close>

datatype event =
    Logged int "(string \<times> real option) list"
  | Shown int
  | Saved int
  | Evaluated int

record 'sd train_state =
  comps :: "'sd components"
  avg_loss_dict :: "(string \<times> deque) list"
  files :: "(path \<times> 'sd ckpt_dir) list"
  events :: "event list"

text \<open>\<^verbatim>\<open>it % n\<close> on Python integers: the remainder has the sign of \<open>n\<close>, as \<open>mod\<close> on
  \<open>int\<close> has, and \<open>n = 0\<close> raises. In \<^verbatim>\<open>it % n == 0 and cond\<close> the remainder is computed
  first, on every process.\<close>

definition py_mod :: "int \<Rightarrow> int \<Rightarrow> error + int" where
  "py_mod a n = (if n = 0 then Inl ZeroDivisionError else Inr (a mod n))"

definition gate :: "int \<Rightarrow> int \<Rightarrow> bool \<Rightarrow> error + bool" where
  "gate it period cond = then_do (py_mod it period) (\<lambda>r. Inr (r = 0 \<and> cond))"

text \<open>Line 332, \<^verbatim>\<open>loss_dict.pop('loss')\<close>.\<close>

definition pop_loss :: "(string \<times> 'v) list \<Rightarrow> error + 'v \<times> (string \<times> 'v) list" where
  "pop_loss d =
     (case map_of d ''loss'' of
        None \<Rightarrow> Inl KeyError
      | Some v \<Rightarrow> Inr (v, AList.delete ''loss'' d))"

text \<open>
  One pass through the body of the loop, lines 282-411, for the batch at position \<open>n\<close>
  of the training sequence. The model, the loss (which is given \<^verbatim>\<open>it\<close>), the backward
  pass, the optimizer steps and the gathering of the loss terms (lines 285-305) are
  collaborators: \<open>train_step n it\<close> stands for them, taking the components to the
  stepped components and the loss dictionary of the batch.

  The evaluation (lines 367-411) changes none of the variables of the loop, but it can
  end the loop: every validation batch passes \<^verbatim>\<open>output_dir\<close> to \<^verbatim>\<open>visualize_outputs\<close>
  (line 384), and \<^verbatim>\<open>output_dir\<close> is bound only on the local main process (lines 79-80).
  The gate of line 366 asks for a validation set that is not empty, and every worker
  is given a share of it, so on any other process the first validation batch raises
  \<^verbatim>\<open>NameError\<close>. On the local main process the model records that the evaluation
  ran; \<open>evaluate\<close> above is its computation. Wall clock times (lines 317-319, 339,
  407) are left out.
\<close>

definition iteration :: "config \<Rightarrow> (nat \<Rightarrow> int \<Rightarrow> 'sd components \<Rightarrow> 'sd components \<times> (string \<times> real) list)
    \<Rightarrow> nat \<Rightarrow> int \<Rightarrow> int \<Rightarrow> 'sd train_state \<Rightarrow> error + 'sd train_state" where
  "iteration cfg train_step n it sample_count st =
     then_do (py_truediv (real_of_int sample_count) (real (len_train_dataset cfg))) (\<lambda>epoch.
     case train_step n it (comps st) of (c, batch_losses) \<Rightarrow>
     then_do (update_running_average (avg_loss_it cfg) (avg_loss_dict st) batch_losses) (\<lambda>(avg, loss_dict).
     then_do (gate it (log_it cfg) (is_local_main_process cfg)) (\<lambda>do_log.
     then_do (gate it (show_it cfg) (is_local_main_process cfg)) (\<lambda>do_show.
     then_do (if do_show then then_do (pop_loss loss_dict) (\<lambda>_. Inr [Shown it]) else Inr []) (\<lambda>shown.
     then_do (gate it (save_it cfg) (is_local_main_process cfg)) (\<lambda>do_save.
     then_do (gate it (eval_it cfg) (0 < len_val_dataset cfg)) (\<lambda>do_eval.
     if do_eval \<and> \<not> is_local_main_process cfg then Inl NameError
     else
       Inr (st\<lparr>comps := c,
                avg_loss_dict := avg,
                files := (if do_save
                          then save_checkpoint (optimize_inputs (flags cfg)) c it sample_count epoch (files st)
                          else files st),
                events := events st
                  @ (if do_log then [Logged it loss_dict] else [])
                  @ shown
                  @ (if do_save then [Saved it] else [])
                  @ (if do_eval then [Evaluated it] else [])\<rparr>))))))))"

text \<open>The loop, lines 281 and 413-416. The sampler of the training loader
  (\<^verbatim>\<open>InfiniteSampler\<close>, not among the sources) never ends according to the spec, so the
  loop is left only by the \<^verbatim>\<open>break\<close>. The result is the number of batches taken from the
  sequence and the final \<^verbatim>\<open>it\<close> and \<^verbatim>\<open>sample_count\<close>.\<close>

function training_iterations :: "config \<Rightarrow> (nat \<Rightarrow> int \<Rightarrow> 'sd components \<Rightarrow> 'sd components \<times> (string \<times> real) list)
    \<Rightarrow> nat \<Rightarrow> int \<Rightarrow> int \<Rightarrow> 'sd train_state \<Rightarrow> error + nat \<times> int \<times> int \<times> 'sd train_state" where
  "training_iterations cfg train_step n it sample_count st =
     (case iteration cfg train_step n it sample_count st of
        Inl e \<Rightarrow> Inl e
      | Inr st' \<Rightarrow>
          if it + 1 > iterations cfg
          then Inr (Suc n, it + 1, sample_count + batch_size cfg * int (num_processes cfg), st')
          else training_iterations cfg train_step (Suc n) (it + 1)
                 (sample_count + batch_size cfg * int (num_processes cfg)) st')"
  by pat_completeness auto
termination
  by (relation "measure (\<lambda>(cfg, train_step, n, it, sample_count, st). nat (iterations cfg + 1 - it))") auto

section \<open>Concrete batches\<close>

text \<open>A batch of one frame (frame 1) with its tracked extrinsic matrix, whose translation
  column is (1, 2, 3), and an input store whose camera table has moved away from the
  tracked values: the row of frame 1 is (10, 11, 12).\<close>

definition cam_flags :: opt_flags where
  "cam_flags = \<lparr>optimize_latent = False, optimize_expression = False,
                optimize_pose = False, optimize_camera = True\<rparr>"

definition cam_store :: input_params where
  "cam_store = \<lparr>frame_latent = None, expression = None, pose = None,
                cam_trans = Some [(7, 8, 9), (10, 11, 12)]\<rparr>"

definition dataset_extrinsic :: "real list list list" where
  "dataset_extrinsic = [[[1, 0, 0, 1], [0, 1, 0, 2], [0, 0, 1, 3], [0, 0, 0, 1]]]"

definition cam_batch :: batch_env where
  "cam_batch = \<lparr>heap = [Ids [1], Mats dataset_extrinsic],
                inputs = [''id'' \<mapsto> 0, ''extrinsic'' \<mapsto> 1],
                targets = Map.empty\<rparr>"

text \<open>A batch of the frames 1 and 2 with their tracked expression vectors, and an input
  store with one expression row for each of three frames.\<close>

definition expr_flags :: opt_flags where
  "expr_flags = \<lparr>optimize_latent = False, optimize_expression = True,
                 optimize_pose = False, optimize_camera = False\<rparr>"

definition expr_store :: input_params where
  "expr_store = \<lparr>frame_latent = None, expression = Some [[100], [101], [102]],
                 pose = None, cam_trans = None\<rparr>"

definition expr_batch :: batch_env where
  "expr_batch = \<lparr>heap = [Ids [1, 2], Rows [[5], [6]]],
                 inputs = [''id'' \<mapsto> 0, ''expression'' \<mapsto> 1],
                 targets = Map.empty\<rparr>"

section \<open>Windows and three loss dictionaries\<close>

text \<open>The window of a term after the values \<open>hist\<close> were pushed for it, in the claim's
  words: no window when nothing was pushed, and else a window of capacity \<open>C\<close> that holds
  the last \<open>C\<close> values of \<open>hist\<close>.\<close>

definition window_of :: "nat \<Rightarrow> (string \<times> deque) list \<Rightarrow> string \<Rightarrow> real list \<Rightarrow> bool" where
  "window_of C avg key hist =
     (case map_of avg key of
        None \<Rightarrow> hist = []
      | Some d \<Rightarrow> maxlen d = C \<and> items d = drop (length hist - C) hist)"

text \<open>The loss dictionaries of three iterations.\<close>

definition three_losses :: "(string \<times> real) list list" where
  "three_losses = [[(''loss'', 1), (''rgb'', 7)], [(''loss'', 2), (''rgb'', 7)], [(''loss'', 4), (''rgb'', 7)]]"

section \<open>Concrete checkpoints\<close>


text \<open>A library whose loads accept every state dictionary, and one whose input store
  refuses the state it is given (and keeps its own).\<close>

definition accepting_api :: "nat torch_api" where
  "accepting_api = \<lparr>model_load = (\<lambda>sd m. Inr (sd, [], [])),
     optimizer_load = (\<lambda>sd x. Inr sd),
     scheduler_load = (\<lambda>sd x. Inr sd),
     input_load = (\<lambda>sd p. (sd, Inr ([], []))),
     optimizer_input_load = (\<lambda>sd x. (sd, None)),
     scheduler_input_load = (\<lambda>sd x. (sd, None))\<rparr>"

definition mismatching_api :: "nat torch_api" where
  "mismatching_api = accepting_api\<lparr>input_load := (\<lambda>sd p. (p, Inl RuntimeError))\<rparr>"

definition fresh_components :: "nat components" where
  "fresh_components = \<lparr>model = 0, optimizer = 0, scheduler = 0, input_store = 0,
     optimizer_input = 0, scheduler_input = 0\<rparr>"

definition trained_components :: "nat components" where
  "trained_components = \<lparr>model = 11, optimizer = 12, scheduler = 13, input_store = 14,
     optimizer_input = 15, scheduler_input = 16\<rparr>"

text \<open>The checkpoint of iteration 5 as a run without input optimization writes it (no
  \<^verbatim>\<open>input.pth\<close>), the same checkpoint with an unreadable \<^verbatim>\<open>input.pth\<close>, and as a run
  with input optimization writes it.\<close>

definition fs_without_input :: "(path \<times> nat ckpt_dir) list" where
  "fs_without_input = save_checkpoint False trained_components 5 40 20 []"

definition fs_corrupt_input :: "(path \<times> nat ckpt_dir) list" where
  "fs_corrupt_input = [(IterDir 5, (read_dir fs_without_input (IterDir 5))\<lparr>input_pth := Corrupt\<rparr>)]"

definition fs_with_input :: "(path \<times> nat ckpt_dir) list" where
  "fs_with_input = save_checkpoint True trained_components 5 40 20 []"

definition fs_corrupt_optimizer :: "(path \<times> nat ckpt_dir) list" where
  "fs_corrupt_optimizer = [(IterDir 5, (read_dir fs_with_input (IterDir 5))\<lparr>optimizer_pth := Corrupt\<rparr>)]"

section \<open>Whole iterations, and a small run\<close>


text \<open>A given number of passes through the body of the loop, one after the other, each on
  the next batch with \<^verbatim>\<open>it\<close> one higher and \<^verbatim>\<open>sample_count\<close> advanced: what "whole
  iterations only" means.\<close>

fun whole_iterations :: "nat \<Rightarrow> config \<Rightarrow> (nat \<Rightarrow> int \<Rightarrow> 'sd components \<Rightarrow> 'sd components \<times> (string \<times> real) list)
    \<Rightarrow> nat \<Rightarrow> int \<Rightarrow> int \<Rightarrow> 'sd train_state \<Rightarrow> error + 'sd train_state" where
  "whole_iterations 0 cfg train_step n it sample_count st = Inr st"
| "whole_iterations (Suc k) cfg train_step n it sample_count st =
     then_do (iteration cfg train_step n it sample_count st) (\<lambda>st'.
       whole_iterations k cfg train_step (Suc n) (it + 1)
         (sample_count + batch_size cfg * int (num_processes cfg)) st')"

text \<open>A configuration and collaborators with which no iteration raises: the training
  set is not empty, the window length is not negative, no interval is 0, every loss
  dictionary has the total \<^verbatim>\<open>'loss'\<close>, and the process is the local main process or there
  is nothing to evaluate.\<close>

definition runs_clean :: "config \<Rightarrow> (nat \<Rightarrow> int \<Rightarrow> 'sd components \<Rightarrow> 'sd components \<times> (string \<times> real) list) \<Rightarrow> bool" where
  "runs_clean cfg train_step =
     (0 < len_train_dataset cfg \<and> 0 \<le> avg_loss_it cfg
      \<and> log_it cfg \<noteq> 0 \<and> show_it cfg \<noteq> 0 \<and> save_it cfg \<noteq> 0 \<and> eval_it cfg \<noteq> 0
      \<and> (is_local_main_process cfg \<or> len_val_dataset cfg = 0)
      \<and> (\<forall>n it c. map_of (snd (train_step n it c)) ''loss'' \<noteq> None))"

definition small_config :: config where
  "small_config = \<lparr>iterations = 2, batch_size = 4, num_processes = 1,
     log_it = 1, show_it = 2, save_it = 2, eval_it = 2, avg_loss_it = 2,
     is_local_main_process = True,
     flags = \<lparr>optimize_latent = False, optimize_expression = False,
               optimize_pose = False, optimize_camera = False\<rparr>,
     len_train_dataset = 2, len_val_dataset = 2\<rparr>"

definition stub_step :: "nat \<Rightarrow> int \<Rightarrow> nat components \<Rightarrow> nat components \<times> (string \<times> real) list" where
  "stub_step n it c = (c\<lparr>model := model c + 1\<rparr>, [(''loss'', real n)])"

definition start_state :: "nat train_state" where
  "start_state = \<lparr>comps = \<lparr>model = 0, optimizer = 0, scheduler = 0, input_store = 0,
     optimizer_input = 0, scheduler_input = 0\<rparr>, avg_loss_dict = [], files = [], events = []\<rparr>"


section \<open>Running sums, aligned workers, and example workers\<close>

text \<open>A running sum after more values were added to it, one after the other: nothing
  added leaves it as it is, and a sum that did not exist starts at the first value.\<close>

definition acc_plus :: "tensor_arith \<Rightarrow> real option \<Rightarrow> real list \<Rightarrow> real option" where
  "acc_plus ar a vs = fold (\<lambda>v a. Some (case a of None \<Rightarrow> v | Some s \<Rightarrow> tensor_add ar s v)) vs a"

text \<open>The sum a worker holds for a term after it has added the values \<open>vs\<close> in this order.\<close>

fun running_sum :: "tensor_arith \<Rightarrow> real list \<Rightarrow> real" where
  "running_sum ar [] = 0"
| "running_sum ar (v # vs) = fold (\<lambda>x s. tensor_add ar s x) vs v"

text \<open>The dictionary a worker hands to the collective when its batches carry the loss
  terms \<open>ks\<close>: the running sum of every term, and the count.\<close>

definition worker_report :: "tensor_arith \<Rightarrow> string list \<Rightarrow> (string \<times> real) list list \<Rightarrow> (string \<times> real) list" where
  "worker_report ar ks batches =
     map (\<lambda>k. (k, running_sum ar (pushed k batches))) ks @ [(''num_batches'', real (length batches))]"

text \<open>Every worker is the local main process of its machine and has a batch, and the
  batches of all workers carry the same loss terms \<open>ks\<close>, none of them named
  \<^verbatim>\<open>num_batches\<close>.\<close>

definition aligned :: "string list \<Rightarrow> (bool \<times> (string \<times> real) list list) list \<Rightarrow> bool" where
  "aligned ks workers =
     (distinct ks \<and> ''num_batches'' \<notin> set ks \<and> workers \<noteq> []
      \<and> list_all (\<lambda>(is_local_main, batches). is_local_main \<and> batches \<noteq> []
                    \<and> list_all (\<lambda>b. map fst b = ks) batches) workers)"


text \<open>Two machines with one process each, and two validation batches per process.\<close>

definition two_machines :: "(bool \<times> (string \<times> real) list list) list" where
  "two_machines = [(True, [[(''loss'', 1), (''rgb'', 10)], [(''loss'', 2), (''rgb'', 20)]]),
                   (True, [[(''loss'', 3), (''rgb'', 30)], [(''loss'', 6), (''rgb'', 40)]])]"


text \<open>One process whose loss function reports a term named \<^verbatim>\<open>num_batches\<close>.\<close>

definition reserved_term_machine :: "(bool \<times> (string \<times> real) list list) list" where
  "reserved_term_machine = [(True, [[(''loss'', 1), (''num_batches'', 5)], [(''loss'', 3), (''num_batches'', 7)]])]"

text \<open>The small run on a process that is not the local main process of its machine.\<close>

definition other_process_config :: config where
  "other_process_config = small_config\<lparr>is_local_main_process := False\<rparr>"


section \<open>Floating point sums\<close>

text \<open>Rounding to the nearest integer, a tie going to the even one.\<close>

definition round_half_even :: "real \<Rightarrow> int" where
  "round_half_even x =
     (let n = \<lfloor>x\<rfloor>; r = x - of_int n
      in if r < 1 / 2 then n else if 1 / 2 < r then n + 1 else if even n then n else n + 1)"

text \<open>The binary floating point number with a significand of \<open>p\<close> bits that is nearest to
  \<open>x\<close>, for values inside the range of the normal numbers of the format: \<open>x\<close> is rounded
  to a multiple of the unit in the last place of its binade.\<close>

definition round_to :: "nat \<Rightarrow> real \<Rightarrow> real" where
  "round_to p x =
     (if x = 0 then 0
      else (let u = 2 powr of_int (\<lfloor>log 2 \<bar>x\<bar>\<rfloor> - int p + 1)
            in of_int (round_half_even (x / u)) * u))"

text \<open>Loss tensors with a significand of \<open>p\<close> bits (24 for \<^verbatim>\<open>torch.float32\<close>, the default
  type of a tensor): every addition rounds its result, \<^verbatim>\<open>torch.sum\<close> adds the gathered
  values one after the other, and the quotient of line 394 is a division of Python
  floats, which have 53 bits.\<close>

definition float_arith :: "nat \<Rightarrow> tensor_arith" where
  "float_arith p =
     \<lparr>tensor_add = (\<lambda>a b. round_to p (a + b)),
      tensor_sum = (\<lambda>vs. fold (\<lambda>x s. round_to p (s + x)) vs 0),
      float_div = (\<lambda>a b. round_to 53 (a / b))\<rparr>"

text \<open>A loss value well below the last place of 1 in \<^verbatim>\<open>float32\<close>, and two machines with
  two validation batches each.\<close>

definition small_loss :: real where
  "small_loss = 3 / 2 ^ 26"

definition float_machines :: "(bool \<times> (string \<times> real) list list) list" where
  "float_machines = [(True, [[(''loss'', 1)], [(''loss'', small_loss)]]),
                     (True, [[(''loss'', small_loss)], [(''loss'', small_loss)]])]"


section \<open>Checkpoints with a damaged input optimizer\<close>

text \<open>The checkpoint of iteration 5 without \<^verbatim>\<open>optimizer_input.pth\<close>, and a library whose input
  optimizer refuses the state it is given.\<close>


definition fs_without_input_optimizer :: "(path \<times> nat ckpt_dir) list" where
  "fs_without_input_optimizer =
     [(IterDir 5, (read_dir fs_with_input (IterDir 5))\<lparr>optimizer_input_pth := Absent\<rparr>)]"

definition refusing_optimizer_api :: "nat torch_api" where
  "refusing_optimizer_api = accepting_api\<lparr>optimizer_input_load := (\<lambda>sd x. (x, Some ValueError))\<rparr>"

section \<open>Properties of the input substitution\<close>

lemma then_do_InrE:
  assumes "then_do m f = Inr y"
  obtains x where "m = Inr x" and "f x = Inr y"
  using assms by (cases m) (simp_all add: then_do_def)

lemma set_translation_length: "length (set_translation m t) = length m"
  by (simp add: set_translation_def split: prod.splits)

lemma set_translation_row_length:
  assumes "r < length m"
  shows "length (set_translation m t ! r) = length (m ! r)"
proof -
  consider "r = 0" | "r = 1" | "r = 2" | "3 \<le> r" by linarith
  then show ?thesis using assms
    by cases (auto simp: set_translation_def nth_list_update split: prod.splits)
qed

lemma set_translation_entry:
  assumes "r < length m" and "\<not> (r < 3 \<and> c = 3)"
  shows "set_translation m t ! r ! c = m ! r ! c"
proof -
  consider "r = 0" | "r = 1" | "r = 2" | "3 \<le> r" by linarith
  then show ?thesis using assms
    by cases (auto simp: set_translation_def nth_list_update split: prod.splits)
qed

lemma assign_translation_frame:
  assumes "assign_translation (Mats ms) v = Inr t'"
  shows "\<exists>ms'. t' = Mats ms' \<and> same_outside_translation ms ms'"
proof -
  have zipped: "same_outside_translation ms (map2 set_translation ms v)" if "length v = length ms"
    using that
    by (simp add: same_outside_translation_def set_translation_length
        set_translation_row_length set_translation_entry)
  have spread: "same_outside_translation ms (map (\<lambda>m. set_translation m t) ms)" for t
    by (simp add: same_outside_translation_def set_translation_length
        set_translation_row_length set_translation_entry)
  from assms show ?thesis
    by (auto simp: assign_translation_def zipped spread split: if_splits)
qed

lemma store_lookup_keeps:
  assumes "store_lookup key table ids env = Inr env'"
  shows "targets env' = targets env"
    and "k \<noteq> key \<Longrightarrow> inputs env' k = inputs env k"
    and "a < length (heap env) \<Longrightarrow> a < length (heap env') \<and> heap env' ! a = heap env ! a"
  using assms
  by (auto simp: store_lookup_def nth_append elim!: then_do_InrE)

lemma keep_original_keeps:
  assumes "keep_original key env = Inr env'"
  shows "heap env' = heap env" and "inputs env' = inputs env"
  using assms by (auto simp: keep_original_def elim!: then_do_InrE)

lemma tensor_at_store_lookup:
  assumes "store_lookup key table ids env = Inr env'" and "k \<noteq> key"
    and "tensor_at (heap env) (inputs env) k = Some t"
  shows "tensor_at (heap env') (inputs env') k = Some t"
  using assms store_lookup_keeps(2,3)[OF assms(1)]
  by (auto simp: tensor_at_def split: option.splits if_splits)

lemma tensor_at_keep_original:
  assumes "keep_original key env = Inr env'"
  shows "tensor_at (heap env') (inputs env') k = tensor_at (heap env) (inputs env) k"
  using keep_original_keeps[OF assms] by (simp add: tensor_at_def)

lemma write_translation_frame:
  assumes "write_translation table ids env = Inr env'"
    and "tensor_at (heap env) (inputs env) ''extrinsic'' = Some (Mats ms)"
  shows "\<exists>ms'. tensor_at (heap env') (inputs env') ''extrinsic'' = Some (Mats ms')
           \<and> same_outside_translation ms ms'"
proof -
  from assms(2) obtain a where a: "inputs env ''extrinsic'' = Some a" "a < length (heap env)"
      "heap env ! a = Mats ms"
    by (auto simp: tensor_at_def split: option.splits if_splits)
  from assms(1) a obtain v t' where t': "assign_translation (Mats ms) v = Inr t'"
      and env': "env' = env\<lparr>heap := (heap env)[a := t']\<rparr>"
    unfolding write_translation_def
    by (auto simp: getitem_def load_tensor_def elim!: then_do_InrE)
  from assign_translation_frame[OF t'] obtain ms' where "t' = Mats ms'"
      and "same_outside_translation ms ms'" by blast
  with env' a show ?thesis by (auto simp: tensor_at_def)
qed

lemma substitution_step_keeps:
  assumes "then_do (keep_original key env) (store_lookup key table ids) = Inr env'"
    and "k \<noteq> key" and "tensor_at (heap env) (inputs env) k = Some t"
  shows "tensor_at (heap env') (inputs env') k = Some t"
  using assms
  by (auto elim!: then_do_InrE simp: tensor_at_keep_original dest!: tensor_at_store_lookup)

lemmas substitution_defs =
  replace_optimizable_inputs_def then_do_def select_ids_def getitem_def load_tensor_def
  truthy_def full_like_def keep_original_def store_lookup_def write_translation_def
  module_of_def embedding_def assign_translation_def has_translation_def
  set_translation_def tensor_at_def

text \<open>
  C10. When camera optimization is enabled, the substitution overwrites only the
  translation column \<^verbatim>\<open>inputs['extrinsic'][:, :3, 3]\<close>: after a call that returns,
  \<^verbatim>\<open>inputs['extrinsic']\<close> is a tensor of the same shape as before, and every entry
  outside rows 0-2 of column 3 (the rotation block and the bottom row) is the entry it
  was before.
\<close>

theorem camera_substitution_frame:
  assumes "optimize_camera fl"
    and "tensor_at (heap env) (inputs env) ''extrinsic'' = Some (Mats ms)"
    and "replace_optimizable_inputs fl ps fixed_id env = Inr env'"
  shows "\<exists>ms'. tensor_at (heap env') (inputs env') ''extrinsic'' = Some (Mats ms')
           \<and> same_outside_translation ms ms'"
proof -
  from assms(3) obtain ids env1 env2 env3 env4 where
    e1: "(if optimize_latent fl then store_lookup ''frame_latent'' (frame_latent ps) ids env
          else Inr env) = Inr env1"
    and e2: "(if optimize_expression fl
          then then_do (keep_original ''expression'' env1)
                 (store_lookup ''expression'' (expression ps) ids)
          else Inr env1) = Inr env2"
    and e3: "(if optimize_pose fl
          then then_do (keep_original ''pose'' env2) (store_lookup ''pose'' (pose ps) ids)
          else Inr env2) = Inr env3"
    and k: "keep_original ''extrinsic'' env3 = Inr env4"
    and w: "write_translation (cam_trans ps) ids env4 = Inr env'"
    using assms(1) unfolding replace_optimizable_inputs_def
    by (auto elim!: then_do_InrE)
  have t1: "tensor_at (heap env1) (inputs env1) ''extrinsic'' = Some (Mats ms)"
    using e1 assms(2) tensor_at_store_lookup[of "''frame_latent''" _ _ env env1 "''extrinsic''"]
    by (auto split: if_splits)
  have t2: "tensor_at (heap env2) (inputs env2) ''extrinsic'' = Some (Mats ms)"
    using e2 t1 substitution_step_keeps[of "''expression''" env1 _ _ env2 "''extrinsic''"]
    by (auto split: if_splits)
  have t3: "tensor_at (heap env3) (inputs env3) ''extrinsic'' = Some (Mats ms)"
    using e3 t2 substitution_step_keeps[of "''pose''" env2 _ _ env3 "''extrinsic''"]
    by (auto split: if_splits)
  have "tensor_at (heap env4) (inputs env4) ''extrinsic'' = Some (Mats ms)"
    using t3 by (simp add: tensor_at_keep_original[OF k])
  with w show ?thesis by (rule write_translation_frame)
qed

lemma cam_batch_run:
  "replace_optimizable_inputs cam_flags cam_store None cam_batch =
     Inr \<lparr>heap = [Ids [1], Mats [[[1, 0, 0, 10], [0, 1, 0, 11], [0, 0, 1, 12], [0, 0, 0, 1]]]],
          inputs = [''id'' \<mapsto> 0, ''extrinsic'' \<mapsto> 1],
          targets = [''extrinsic'' \<mapsto> 1]\<rparr>"
  by (simp add: substitution_defs cam_flags_def cam_store_def cam_batch_def dataset_extrinsic_def)

theorem camera_substitution_frame_witness:
  "\<exists>env'. replace_optimizable_inputs cam_flags cam_store None cam_batch = Inr env'
     \<and> (\<exists>ms'. tensor_at (heap env') (inputs env') ''extrinsic'' = Some (Mats ms')
           \<and> same_outside_translation dataset_extrinsic ms')"
proof -
  have fl: "optimize_camera cam_flags" by (simp add: cam_flags_def)
  have pre: "tensor_at (heap cam_batch) (inputs cam_batch) ''extrinsic'' = Some (Mats dataset_extrinsic)"
    by (simp add: tensor_at_def cam_batch_def)
  from camera_substitution_frame[OF fl pre cam_batch_run] cam_batch_run
  show ?thesis by blast
qed

text \<open>
  C2. The entry of \<^verbatim>\<open>targets\<close> is meant to keep the value the dataset supplied. For the
  camera it does not: line 242 binds \<^verbatim>\<open>targets['extrinsic']\<close> to the object that line 243
  then writes in place, so after the call \<^verbatim>\<open>targets['extrinsic']\<close> carries the learned
  translation (10, 11, 12) and not the translation (1, 2, 3) of the dataset.
\<close>

theorem targets_extrinsic_is_overwritten:
  "\<exists>env'. replace_optimizable_inputs cam_flags cam_store None cam_batch = Inr env'
     \<and> tensor_at (heap cam_batch) (inputs cam_batch) ''extrinsic''
         = Some (Mats [[[1, 0, 0, 1], [0, 1, 0, 2], [0, 0, 1, 3], [0, 0, 0, 1]]])
     \<and> tensor_at (heap env') (targets env') ''extrinsic''
         = Some (Mats [[[1, 0, 0, 10], [0, 1, 0, 11], [0, 0, 1, 12], [0, 0, 0, 1]]])
     \<and> tensor_at (heap env') (targets env') ''extrinsic''
         = tensor_at (heap env') (inputs env') ''extrinsic''"
  by (simp add: cam_batch_run) (simp add: tensor_at_def cam_batch_def dataset_extrinsic_def)

text \<open>
  C3. With \<^verbatim>\<open>fixed_id = 0\<close> the constant id is not used: 0 is false in the condition of
  line 232, so the ids of the batch (1 and 2) index the input store, and
  \<^verbatim>\<open>inputs['expression']\<close> becomes the rows of the frames 1 and 2, not twice the row of
  frame 0.
\<close>

theorem fixed_id_zero_is_ignored:
  "select_ids (Some 0) expr_batch = Inr (Ids [1, 2])
   \<and> (\<exists>env'. replace_optimizable_inputs expr_flags expr_store (Some 0) expr_batch = Inr env'
         \<and> tensor_at (heap env') (inputs env') ''expression'' = Some (Rows [[101], [102]]))"
  by (simp add: substitution_defs expr_flags_def expr_store_def expr_batch_def)

section \<open>Properties of the running average\<close>

lemma deque_append_maxlen: "maxlen (deque_append d x) = maxlen d"
  by (simp add: deque_append_def Let_def)

lemma deque_append_window:
  assumes "items d = drop (length hist - maxlen d) hist"
  shows "items (deque_append d x) = drop (length (hist @ [x]) - maxlen d) (hist @ [x])"
proof (cases "length hist < maxlen d")
  case True
  then show ?thesis using assms by (simp add: deque_append_def Let_def)
next
  case False
  then have le: "maxlen d \<le> length hist" by simp
  have len: "length (items d) = maxlen d" using assms le by simp
  have idx: "length (hist @ [x]) - maxlen d = Suc (length hist - maxlen d)"
    using le by simp
  have gen: "drop (Suc k) xs = tl (drop k xs)" for k and xs :: "real list"
    by (simp add: drop_Suc tl_drop)
  have "drop (Suc (length hist - maxlen d)) (hist @ [x])
          = tl (drop (length hist - maxlen d) (hist @ [x]))"
    by (rule gen)
  also have "drop (length hist - maxlen d) (hist @ [x]) = items d @ [x]"
    using assms by simp
  finally have "drop (Suc (length hist - maxlen d)) (hist @ [x]) = tl (items d @ [x])" .
  moreover have "items (deque_append d x) = tl (items d @ [x])"
    using len by (simp add: deque_append_def Let_def)
  ultimately show ?thesis using idx by simp
qed

lemma values_of_Cons:
  "values_of key ((k, v) # rest) = (if k = key then v # values_of key rest else values_of key rest)"
  by (simp add: values_of_def)

lemma window_of_push_same:
  assumes "window_of C avg key hist"
    and "(case map_of avg key of None \<Rightarrow> Inr \<lparr>maxlen = C, items = []\<rparr> | Some d \<Rightarrow> Inr d) = (Inr d :: error + deque)"
  shows "window_of C (AList.update key (deque_append d v) avg) key (hist @ [v])"
proof -
  have d: "maxlen d = C" "items d = drop (length hist - maxlen d) hist"
    using assms by (auto simp: window_of_def split: option.splits)
  show ?thesis
    using deque_append_window[OF d(2), of v] d(1)
    by (simp add: window_of_def update_conv' deque_append_maxlen)
qed

lemma window_of_push_other:
  assumes "window_of C avg key hist" and "k \<noteq> key"
  shows "window_of C (AList.update k d avg) key hist"
  using assms by (simp add: window_of_def update_conv')

lemma push_losses_window:
  assumes "0 \<le> n"
  shows "window_of (nat n) avg key hist \<Longrightarrow> distinct (map fst avg) \<Longrightarrow>
         \<exists>avg'. push_losses n avg loss_dict = Inr avg' \<and> distinct (map fst avg')
            \<and> window_of (nat n) avg' key (hist @ values_of key loss_dict)"
proof (induction loss_dict arbitrary: avg hist)
  case Nil
  then show ?case by (simp add: values_of_def)
next
  case (Cons kv rest)
  obtain k v where kv: "kv = (k, v)" by (cases kv)
  obtain d where d: "(case map_of avg k of None \<Rightarrow> new_deque n | Some d \<Rightarrow> Inr d) = Inr d"
    and d': "(case map_of avg k of None \<Rightarrow> Inr \<lparr>maxlen = nat n, items = []\<rparr> | Some d \<Rightarrow> Inr d) = (Inr d :: error + deque)"
    using assms by (cases "map_of avg k") (simp_all add: new_deque_def)
  let ?avg1 = "AList.update k (deque_append d v) avg"
  have dist: "distinct (map fst ?avg1)" using Cons.prems(2) by (simp add: distinct_update)
  have step: "push_losses n avg (kv # rest) = push_losses n ?avg1 rest"
    using d by (simp add: kv then_do_def)
  show ?case
  proof (cases "k = key")
    case True
    have "window_of (nat n) ?avg1 key (hist @ [v])"
      using window_of_push_same[OF Cons.prems(1)] d' True by simp
    from Cons.IH[OF this dist] show ?thesis
      using step True by (simp add: kv values_of_Cons)
  next
    case False
    have "window_of (nat n) ?avg1 key hist"
      using window_of_push_other[OF Cons.prems(1) False] .
    from Cons.IH[OF this dist] show ?thesis
      using step False by (simp add: kv values_of_Cons)
  qed
qed

lemma feed_losses_window:
  assumes "0 \<le> n"
  shows "window_of (nat n) avg key hist \<Longrightarrow> distinct (map fst avg) \<Longrightarrow>
         \<exists>avg'. feed_losses n avg loss_dicts = Inr avg' \<and> distinct (map fst avg')
            \<and> window_of (nat n) avg' key (hist @ pushed key loss_dicts)"
proof (induction loss_dicts arbitrary: avg hist)
  case Nil
  then show ?case by (simp add: pushed_def)
next
  case (Cons ld rest)
  from push_losses_window[OF assms Cons.prems, of ld] obtain avg1 where
    p: "push_losses n avg ld = Inr avg1" and d1: "distinct (map fst avg1)"
    and w1: "window_of (nat n) avg1 key (hist @ values_of key ld)" by blast
  from Cons.IH[OF w1 d1] obtain avg' where
    "feed_losses n avg1 rest = Inr avg'" "distinct (map fst avg')"
    "window_of (nat n) avg' key ((hist @ values_of key ld) @ pushed key rest)" by blast
  then show ?case using p by (simp add: then_do_def pushed_def)
qed

lemma fold_update_lookup:
  "distinct (map fst avg) \<Longrightarrow>
   map_of (fold (\<lambda>(k, d). AList.update k (f d)) avg acc) key
     = (case map_of avg key of Some d \<Rightarrow> Some (f d) | None \<Rightarrow> map_of acc key)"
proof (induction avg arbitrary: acc)
  case Nil
  then show ?case by simp
next
  case (Cons kd rest)
  obtain k d where kd: "kd = (k, d)" by (cases kd)
  have none: "map_of rest k = None" using Cons.prems kd
    by (simp add: map_of_eq_None_iff)
  show ?case using Cons.IH[of "AList.update k (f d) acc"] Cons.prems none
    by (auto simp: kd update_conv' split: option.splits)
qed

lemma smooth_losses_lookup:
  assumes "distinct (map fst avg)" and "map_of avg key = Some d"
  shows "map_of (smooth_losses avg loss_dict) key = Some (np_mean (items d))"
  using fold_update_lookup[OF assms(1), of "\<lambda>d. np_mean (items d)" _ key] assms(2)
  by (simp add: smooth_losses_def)

text \<open>
  C5. Push the loss dictionaries of any number of iterations into the windows of
  capacity \<open>C\<close>, and let \<open>vs\<close> be the values pushed for one term, \<open>m\<close> of them. The
  window of the term never holds more than \<open>C\<close> values and holds the last values
  pushed. When \<open>m > C\<close> it holds exactly the last \<open>C\<close> values, the older ones are gone,
  and the smoothed value reported for the term is the arithmetic mean of
  \<open>v\<^sub>m\<^sub>-\<^sub>C\<^sub>+\<^sub>1 .. v\<^sub>m\<close>.
\<close>

theorem running_average_window:
  assumes "0 \<le> n" and "C = nat n" and "vs = pushed key loss_dicts"
  shows "\<exists>avg. feed_losses n [] loss_dicts = Inr avg
     \<and> (case map_of avg key of
          None \<Rightarrow> vs = []
        | Some d \<Rightarrow> length (items d) \<le> C \<and> items d = drop (length vs - C) vs)
     \<and> (C < length vs \<longrightarrow>
          (\<exists>d. map_of avg key = Some d \<and> length (items d) = C
                \<and> items d = drop (length vs - C) vs)
          \<and> (0 < C \<longrightarrow> map_of (smooth_losses avg loss_dict) key
                = Some (Some (sum_list (drop (length vs - C) vs) / real C))))"
proof -
  have "window_of (nat n) [] key []" by (simp add: window_of_def)
  from feed_losses_window[OF assms(1) this, of loss_dicts] obtain avg where
    f: "feed_losses n [] loss_dicts = Inr avg" and dist: "distinct (map fst avg)"
    and w: "window_of C avg key vs"
    using assms(2,3) by auto
  have part1: "(case map_of avg key of
          None \<Rightarrow> vs = []
        | Some d \<Rightarrow> length (items d) \<le> C \<and> items d = drop (length vs - C) vs)"
    using w by (auto simp: window_of_def split: option.splits)
  have part2: "(\<exists>d. map_of avg key = Some d \<and> length (items d) = C
                \<and> items d = drop (length vs - C) vs)
          \<and> (0 < C \<longrightarrow> map_of (smooth_losses avg loss_dict) key
                = Some (Some (sum_list (drop (length vs - C) vs) / real C)))"
    if m: "C < length vs"
  proof -
    from w m obtain d where d: "map_of avg key = Some d" "items d = drop (length vs - C) vs"
      by (auto simp: window_of_def split: option.splits)
    have len: "length (items d) = C" using d(2) m by simp
    have "map_of (smooth_losses avg loss_dict) key
            = Some (Some (sum_list (drop (length vs - C) vs) / real C))" if "0 < C"
      using smooth_losses_lookup[OF dist d(1), of loss_dict] d(2) len that
      by (auto simp: np_mean_def)
    with d len show ?thesis by blast
  qed
  from f part1 part2 show ?thesis by blast
qed


lemma pushed_three_losses: "pushed ''loss'' three_losses = [1, 2, 4]"
  by (simp add: pushed_def values_of_def three_losses_def)

theorem running_average_window_witness:
  "\<exists>avg. feed_losses 2 [] three_losses = Inr avg
     \<and> (\<exists>d. map_of avg ''loss'' = Some d \<and> items d = [2, 4])
     \<and> map_of (smooth_losses avg []) ''loss'' = Some (Some 3)"
proof -
  have vs: "[1, 2, 4] = pushed ''loss'' three_losses" by (simp add: pushed_three_losses)
  have n: "(0::int) \<le> 2" and C: "(2::nat) = nat 2" by simp_all
  from running_average_window[OF n C vs, of "[]"]
  show ?thesis by auto
qed

section \<open>Properties of saving and resuming\<close>

lemmas resume_defs =
  resume_def resolve_checkpoint_def restore_def restore_inputs_def read_dir_def
  save_checkpoint_def torch_load_def then_do_def report_keys_def empty_dir_def Let_def

lemmas example_defs =
  accepting_api_def mismatching_api_def fresh_components_def trained_components_def
  fs_without_input_def fs_corrupt_input_def fs_with_input_def fs_corrupt_optimizer_def

text \<open>
  C1. The resume is meant to go on, with a warning and a fresh input store, when the
  input-store file of a valid checkpoint is absent or corrupt. It does not: the
  \<^verbatim>\<open>torch.load\<close> of \<^verbatim>\<open>input.pth\<close> (line 201) stands one line before the \<^verbatim>\<open>try\<close> of line
  202, so with input optimization enabled a checkpoint directory without \<^verbatim>\<open>input.pth\<close>
  (as a run without input optimization writes it), or with an unreadable one, makes
  the resume raise. The \<^verbatim>\<open>torch.load\<close> of \<^verbatim>\<open>optimizer_input.pth\<close> (line 209) stands
  inside the \<^verbatim>\<open>try\<close> and does degrade.
\<close>

theorem resume_aborts_without_input_file:
  "resume accepting_api True True (Some 5) None fs_without_input fresh_components
     = Inl FileNotFoundError
   \<and> resume accepting_api True True (Some 5) None fs_corrupt_input fresh_components
     = Inl UnpicklingError"
  by (simp add: resume_defs example_defs)

text \<open>
  When \<^verbatim>\<open>input.pth\<close> can be read but loading its state into the input store raises
  (line 203), the resume goes on: \<^verbatim>\<open>it\<close> and \<^verbatim>\<open>sample_count\<close> are those of the
  checkpoint, the model, optimizer and scheduler are restored, the input store is what
  the failed load left of it, and "Mismatched input parameters state." is printed.
\<close>

theorem degraded_resume_on_mismatch:
  assumes "resolve_checkpoint is_main load_iteration load_from fs = Inr (Some p)"
    and "d = read_dir fs p"
    and "model_pth d = Stored ms"
    and "model_load api (ck_model ms) (model c) = Inr (m, missing_keys, unexpected_keys)"
    and "optimizer_pth d = Stored os"
    and "optimizer_load api (ck_optimizer os) (optimizer c) = Inr opt"
    and "scheduler_load api (ck_scheduler os) (scheduler c) = Inr sch"
    and "input_pth d = Stored s"
    and "input_load api s (input_store c) = (ps, Inl e)"
  shows "resume api True is_main load_iteration load_from fs c
           = Inr (ck_it ms, ck_sample_count ms,
                  c\<lparr>model := m, optimizer := opt, scheduler := sch, input_store := ps\<rparr>,
                  report_keys UnexpectedModelKeys MissingModelKeys missing_keys unexpected_keys
                    @ [MismatchedInputState, LoadedFrom p])"
  using assms
  by (simp add: resume_def restore_def restore_inputs_def then_do_def torch_load_def Let_def)

theorem degraded_resume_on_mismatch_witness:
  "resume mismatching_api True True (Some 5) None fs_with_input fresh_components
     = Inr (5, 40, \<lparr>model = 11, optimizer = 12, scheduler = 13, input_store = 0,
                    optimizer_input = 0, scheduler_input = 0\<rparr>,
            [MismatchedInputState, LoadedFrom (IterDir 5)])"
proof -
  have r: "resolve_checkpoint True (Some 5) None fs_with_input = Inr (Some (IterDir 5))"
    by (simp add: resolve_checkpoint_def)
  show ?thesis
    using degraded_resume_on_mismatch[OF r, of "read_dir fs_with_input (IterDir 5)"
      "\<lparr>ck_it = 5, ck_sample_count = 40, ck_epoch = 20, ck_model = 11\<rparr>"
      mismatching_api fresh_components 11 "[]" "[]"
      "\<lparr>ck_optimizer = 12, ck_scheduler = 13\<rparr>" 12 13 14 0 RuntimeError]
    by (simp add: example_defs read_dir_def save_checkpoint_def empty_dir_def report_keys_def)
qed

text \<open>
  C7. When a checkpoint directory is resolved and its \<^verbatim>\<open>optimizer.pth\<close> is missing or
  cannot be read, the resume ends in an exception, whatever the other files hold: it
  never returns, so training does not start at iteration 0 (or anywhere).
\<close>

theorem resume_fatal_without_optimizer:
  assumes "resolve_checkpoint is_main load_iteration load_from fs = Inr (Some p)"
    and "optimizer_pth (read_dir fs p) = Absent \<or> optimizer_pth (read_dir fs p) = Corrupt"
  shows "\<exists>e. resume api opt_inputs is_main load_iteration load_from fs c = Inl e"
  using assms
  by (auto simp: resume_def restore_def then_do_def torch_load_def Let_def
      split: sum.splits pth_file.splits prod.splits)

theorem resume_fatal_without_optimizer_witness:
  "\<exists>e. resume accepting_api True True (Some 5) None fs_corrupt_optimizer fresh_components = Inl e"
proof -
  have r: "resolve_checkpoint True (Some 5) None fs_corrupt_optimizer = Inr (Some (IterDir 5))"
    by (simp add: resolve_checkpoint_def)
  have o: "optimizer_pth (read_dir fs_corrupt_optimizer (IterDir 5)) = Absent
         \<or> optimizer_pth (read_dir fs_corrupt_optimizer (IterDir 5)) = Corrupt"
    by (simp add: fs_corrupt_optimizer_def read_dir_def)
  from resume_fatal_without_optimizer[OF r o] show ?thesis .
qed


lemma fold_max_Max: "fold max ks (k::int) = Max (set (k # ks))"
  using Max.set_eq_fold[of k ks] by simp

lemma find_latest_Max:
  assumes "iteration_numbers fs \<noteq> []"
  shows "find_latest_model_path fs = Some (IterDir (Max (set (iteration_numbers fs))))"
  using assms
  by (cases "iteration_numbers fs") (simp_all add: find_latest_model_path_def fold_max_Max)

lemma iteration_numbers_update:
  "set (iteration_numbers (AList.update (IterDir k) d fs)) = insert k (set (iteration_numbers fs))"
  by (induction fs) (auto simp: iteration_numbers_def split: path.splits)

lemma find_latest_after_save:
  assumes "list_all (\<lambda>j. j \<le> k) (iteration_numbers fs)"
  shows "find_latest_model_path (save_checkpoint opt_inputs c k s epoch fs) = Some (IterDir k)"
proof -
  let ?fs' = "save_checkpoint opt_inputs c k s epoch fs"
  have nums: "set (iteration_numbers ?fs') = insert k (set (iteration_numbers fs))"
    by (simp add: save_checkpoint_def Let_def iteration_numbers_update)
  then have ne: "iteration_numbers ?fs' \<noteq> []" by auto
  have "Max (insert k (set (iteration_numbers fs))) = k"
    using assms by (intro Max_eqI) (auto simp: list_all_iff)
  with find_latest_Max[OF ne] nums show ?thesis by simp
qed

lemma read_saved_dir:
  "\<exists>d. read_dir (save_checkpoint opt_inputs c k s epoch fs) (IterDir k) = d
     \<and> model_pth d = Stored \<lparr>ck_it = k, ck_sample_count = s, ck_epoch = epoch, ck_model = model c\<rparr>
     \<and> optimizer_pth d = Stored \<lparr>ck_optimizer = optimizer c, ck_scheduler = scheduler c\<rparr>
     \<and> (opt_inputs \<longrightarrow> input_pth d = Stored (input_store c))"
  by (simp add: save_checkpoint_def read_dir_def Let_def update_conv')

lemma restore_inputs_returns:
  assumes "input_pth d = Stored s"
  shows "\<exists>c' msgs. restore_inputs api d c = Inr (c', msgs)"
  using assms
  by (auto simp: restore_inputs_def then_do_def torch_load_def Let_def
      split: prod.splits sum.splits option.splits)

text \<open>
  C8. Save a checkpoint at iteration \<open>k\<close> with sample count \<open>s\<close>, then resume on the
  coordinating process, under the same setting of input optimization, either with
  \<^verbatim>\<open>load_iteration = k\<close> or with neither \<^verbatim>\<open>load_iteration\<close> nor \<^verbatim>\<open>load_from\<close> when no
  checkpoint directory has a higher number. If the model, the optimizer and the
  scheduler accept the state dictionaries that were saved, the resume returns with
  \<^verbatim>\<open>it = k\<close> and \<^verbatim>\<open>sample_count = s\<close>.
\<close>

theorem checkpoint_round_trip:
  assumes "fs' = save_checkpoint opt_inputs c k s epoch fs"
    and "is_main"
    and "load_iteration = Some k
         \<or> (load_iteration = None \<and> (load_from = None \<or> load_from = Some [])
             \<and> list_all (\<lambda>j. j \<le> k) (iteration_numbers fs))"
    and "model_load api (model c) (model c0) = Inr (m, missing_keys, unexpected_keys)"
    and "optimizer_load api (optimizer c) (optimizer c0) = Inr opt"
    and "scheduler_load api (scheduler c) (scheduler c0) = Inr sch"
  shows "\<exists>c' msgs. resume api opt_inputs is_main load_iteration load_from fs' c0
           = Inr (k, s, c', msgs)"
proof -
  have res: "resolve_checkpoint is_main load_iteration load_from fs' = Inr (Some (IterDir k))"
    using assms(1,2,3) find_latest_after_save[of k fs opt_inputs c s epoch]
    by (auto simp: resolve_checkpoint_def)
  from read_saved_dir[of opt_inputs c k s epoch fs] obtain d where
    d: "read_dir fs' (IterDir k) = d"
      "model_pth d = Stored \<lparr>ck_it = k, ck_sample_count = s, ck_epoch = epoch, ck_model = model c\<rparr>"
      "optimizer_pth d = Stored \<lparr>ck_optimizer = optimizer c, ck_scheduler = scheduler c\<rparr>"
      "opt_inputs \<longrightarrow> input_pth d = Stored (input_store c)"
    using assms(1) by blast
  show ?thesis
  proof (cases opt_inputs)
    case True
    with d(4) have "input_pth d = Stored (input_store c)" by simp
    from restore_inputs_returns[OF this, of api "c0\<lparr>model := m, optimizer := opt, scheduler := sch\<rparr>"]
    obtain c' msgs where
      "restore_inputs api d (c0\<lparr>model := m, optimizer := opt, scheduler := sch\<rparr>) = Inr (c', msgs)"
      by blast
    then show ?thesis using res d(1,2,3) assms(4,5,6) True
      by (simp add: resume_def restore_def then_do_def torch_load_def Let_def)
  next
    case False
    then show ?thesis using res d(1,2,3) assms(4,5,6)
      by (simp add: resume_def restore_def then_do_def torch_load_def Let_def)
  qed
qed

theorem checkpoint_round_trip_witness:
  "(\<exists>c' msgs. resume accepting_api True True (Some 5) None fs_with_input fresh_components
       = Inr (5, 40, c', msgs))
   \<and> (\<exists>c' msgs. resume accepting_api True True None None fs_with_input fresh_components
       = Inr (5, 40, c', msgs))"
proof -
  have fs: "fs_with_input = save_checkpoint True trained_components 5 40 20 []"
    by (simp add: fs_with_input_def)
  have m: "model_load accepting_api (model trained_components) (model fresh_components) = Inr (11, [], [])"
    and o: "optimizer_load accepting_api (optimizer trained_components) (optimizer fresh_components) = Inr 12"
    and sc: "scheduler_load accepting_api (scheduler trained_components) (scheduler fresh_components) = Inr 13"
    by (simp_all add: example_defs)
  have explicit: "Some (5::int) = Some 5
         \<or> (Some (5::int) = None \<and> ((None :: string option) = None \<or> (None :: string option) = Some [])
             \<and> list_all (\<lambda>j. j \<le> 5) (iteration_numbers ([] :: (path \<times> nat ckpt_dir) list)))"
    by simp
  have latest: "(None :: int option) = Some 5
         \<or> ((None :: int option) = None \<and> ((None :: string option) = None \<or> (None :: string option) = Some [])
             \<and> list_all (\<lambda>j. j \<le> 5) (iteration_numbers ([] :: (path \<times> nat ckpt_dir) list)))"
    by (simp add: iteration_numbers_def)
  from checkpoint_round_trip[OF fs TrueI explicit m o sc]
       checkpoint_round_trip[OF fs TrueI latest m o sc]
  show ?thesis by simp
qed

section \<open>Properties of the training loop\<close>

lemma push_losses_returns:
  assumes "0 \<le> n"
  shows "\<exists>avg'. push_losses n avg loss_dict = Inr avg'"
proof (induction loss_dict arbitrary: avg)
  case Nil
  then show ?case by simp
next
  case (Cons kv rest)
  obtain k v where kv: "kv = (k, v)" by (cases kv)
  obtain d where "(case map_of avg k of None \<Rightarrow> new_deque n | Some d \<Rightarrow> Inr d) = Inr d"
    using assms by (cases "map_of avg k") (simp_all add: new_deque_def)
  then show ?case using Cons.IH[of "AList.update k (deque_append d v) avg"]
    by (simp add: kv then_do_def)
qed

lemma fold_update_keeps_key:
  "map_of acc key \<noteq> None \<Longrightarrow>
   map_of (fold (\<lambda>(k, d). AList.update k (f d)) avg acc) key \<noteq> None"
proof (induction avg arbitrary: acc)
  case Nil
  then show ?case by simp
next
  case (Cons kd rest)
  obtain k d where kd: "kd = (k, d)" by (cases kd)
  have "map_of (AList.update k (f d) acc) key \<noteq> None"
    using Cons.prems by (simp add: update_conv')
  from Cons.IH[OF this] show ?case by (simp add: kd)
qed

lemma smooth_losses_keeps_key:
  assumes "map_of loss_dict key \<noteq> None"
  shows "map_of (smooth_losses avg loss_dict) key \<noteq> None"
proof -
  have "map_of (map (\<lambda>(key, v). (key, Some v)) loss_dict) key \<noteq> None"
    using assms by (induction loss_dict) auto
  then show ?thesis unfolding smooth_losses_def by (rule fold_update_keeps_key)
qed

lemma gate_nonzero: "period \<noteq> 0 \<Longrightarrow> gate it period cond = Inr (it mod period = 0 \<and> cond)"
  by (simp add: gate_def py_mod_def then_do_def)

lemma iteration_returns:
  assumes "runs_clean cfg train_step"
  shows "\<exists>st'. iteration cfg train_step n it sample_count st = Inr st'"
proof -
  obtain c batch_losses where ts: "train_step n it (comps st) = (c, batch_losses)"
    by (cases "train_step n it (comps st)")
  have "map_of (snd (train_step n it (comps st))) ''loss'' \<noteq> None"
    using assms by (simp add: runs_clean_def)
  then have loss: "map_of batch_losses ''loss'' \<noteq> None"
    by (simp add: ts)
  have "0 \<le> avg_loss_it cfg" using assms by (simp add: runs_clean_def)
  from push_losses_returns[OF this, of "avg_loss_dict st" batch_losses]
  obtain avg where avg: "push_losses (avg_loss_it cfg) (avg_loss_dict st) batch_losses = Inr avg"
    by blast
  obtain v where pop: "map_of (smooth_losses avg batch_losses) ''loss'' = Some v"
    using smooth_losses_keeps_key[OF loss, of avg] by auto
  show ?thesis
    using assms ts avg pop
    by (auto simp: iteration_def runs_clean_def py_truediv_def update_running_average_def
        gate_nonzero pop_loss_def then_do_def)
qed


lemma whole_iterations_returns:
  assumes "runs_clean cfg train_step"
  shows "\<exists>st'. whole_iterations k cfg train_step n it sample_count st = Inr st'"
proof (induction k arbitrary: n it sample_count st)
  case 0
  then show ?case by simp
next
  case (Suc k)
  from iteration_returns[OF assms, of n it sample_count st] obtain st1 where
    "iteration cfg train_step n it sample_count st = Inr st1" by blast
  then show ?case using Suc.IH by (simp add: then_do_def)
qed

text \<open>
  C4. With a configuration and collaborators under which no iteration raises, for every
  iteration budget \<open>I\<close> and every starting counter \<open>it0 \<le> I\<close> the loop returns; it has
  taken \<open>I + 1 - it0\<close> batches from the training sequence and run the whole body once
  for each (its state is the state after that many whole iterations), \<^verbatim>\<open>it\<close> has gone up
  by one and \<^verbatim>\<open>sample_count\<close> by \<^verbatim>\<open>batch_size * num_processes\<close> per batch, and the
  final \<^verbatim>\<open>it\<close> is \<open>I + 1\<close>, the first value above the budget.
\<close>

theorem training_loop_counts:
  assumes "runs_clean cfg train_step"
    and "it0 \<le> iterations cfg"
    and "K = nat (iterations cfg + 1 - it0)"
  shows "\<exists>st'. whole_iterations K cfg train_step n it0 sample_count0 st = Inr st'
     \<and> training_iterations cfg train_step n it0 sample_count0 st
         = Inr (n + K, iterations cfg + 1,
                sample_count0 + int K * (batch_size cfg * int (num_processes cfg)), st')"
  using assms(2,3)
proof (induction "nat (iterations cfg - it0)" arbitrary: n it0 sample_count0 st K)
  case 0
  then have it0: "it0 = iterations cfg" and K: "K = Suc 0" by simp_all
  from iteration_returns[OF assms(1), of n it0 sample_count0 st] obtain st1 where
    st1: "iteration cfg train_step n it0 sample_count0 st = Inr st1" by blast
  have "training_iterations cfg train_step n it0 sample_count0 st
          = Inr (Suc n, it0 + 1, sample_count0 + batch_size cfg * int (num_processes cfg), st1)"
    using st1 it0 by (subst training_iterations.simps) simp
  then show ?case using st1 it0 K by (simp add: then_do_def)
next
  case (Suc j)
  then have lt: "it0 + 1 \<le> iterations cfg" and j: "j = nat (iterations cfg - (it0 + 1))"
    by linarith+
  obtain K' where K': "K' = nat (iterations cfg + 1 - (it0 + 1))" by simp
  then have K: "K = Suc K'" using Suc.prems lt by linarith
  from iteration_returns[OF assms(1), of n it0 sample_count0 st] obtain st1 where
    st1: "iteration cfg train_step n it0 sample_count0 st = Inr st1" by blast
  let ?sc = "sample_count0 + batch_size cfg * int (num_processes cfg)"
  from Suc.hyps(1)[OF j lt K', of "Suc n" ?sc st1] obtain st' where
    w: "whole_iterations K' cfg train_step (Suc n) (it0 + 1) ?sc st1 = Inr st'"
    and t: "training_iterations cfg train_step (Suc n) (it0 + 1) ?sc st1
         = Inr (Suc n + K', iterations cfg + 1,
                ?sc + int K' * (batch_size cfg * int (num_processes cfg)), st')"
    by blast
  have unfold: "training_iterations cfg train_step n it0 sample_count0 st
      = training_iterations cfg train_step (Suc n) (it0 + 1) ?sc st1"
    using st1 lt by (subst training_iterations.simps) simp
  have "?sc + int K' * (batch_size cfg * int (num_processes cfg))
      = sample_count0 + int K * (batch_size cfg * int (num_processes cfg))"
    by (simp add: K algebra_simps)
  then show ?case using w t unfold st1 K by (simp add: then_do_def)
qed


lemma small_config_runs_clean: "runs_clean small_config stub_step"
  by (simp add: runs_clean_def small_config_def stub_step_def)

theorem training_loop_counts_witness:
  "\<exists>st'. whole_iterations 3 small_config stub_step 0 0 0 start_state = Inr st'
     \<and> training_iterations small_config stub_step 0 0 0 start_state = Inr (3, 3, 12, st')"
proof -
  have le: "0 \<le> iterations small_config" and K: "3 = nat (iterations small_config + 1 - 0)"
    by (simp_all add: small_config_def)
  from training_loop_counts[OF small_config_runs_clean le K, of 0 0 start_state]
  show ?thesis by (simp add: small_config_def)
qed

text \<open>
  C9. On a fresh start no checkpoint is resolved and \<^verbatim>\<open>it\<close> and \<^verbatim>\<open>sample_count\<close> are
  0. For all positive intervals the conditions of logging, printing and saving hold at
  \<^verbatim>\<open>it = 0\<close> on the coordinating process, and the condition of evaluation holds when
  the validation set is not empty. So the first iteration (when nothing in it raises)
  logs, prints, saves the checkpoint directory \<^verbatim>\<open>iter_0\<close> and, with a validation set,
  evaluates.
\<close>

theorem first_iteration_fires:
  assumes "0 < log_it cfg" and "0 < show_it cfg" and "0 < save_it cfg" and "0 < eval_it cfg"
    and "is_local_main_process cfg"
    and "0 < len_train_dataset cfg" and "0 \<le> avg_loss_it cfg"
    and "map_of (snd (train_step n 0 (comps st))) ''loss'' \<noteq> None"
  shows "restore api opt_inputs fs None c = Inr (0, 0, c, [])
     \<and> gate 0 (log_it cfg) (is_local_main_process cfg) = Inr True
     \<and> gate 0 (show_it cfg) (is_local_main_process cfg) = Inr True
     \<and> gate 0 (save_it cfg) (is_local_main_process cfg) = Inr True
     \<and> gate 0 (eval_it cfg) (0 < len_val_dataset cfg) = Inr (0 < len_val_dataset cfg)
     \<and> (\<exists>st' loss_dict d.
          iteration cfg train_step n 0 0 st = Inr st'
          \<and> events st' = events st @ [Logged 0 loss_dict, Shown 0, Saved 0]
                @ (if 0 < len_val_dataset cfg then [Evaluated 0] else [])
          \<and> map_of (files st') (IterDir 0) = Some d
          \<and> model_pth d = Stored \<lparr>ck_it = 0, ck_sample_count = 0, ck_epoch = 0,
                                   ck_model = model (fst (train_step n 0 (comps st)))\<rparr>)"
proof -
  obtain c1 batch_losses where ts: "train_step n 0 (comps st) = (c1, batch_losses)"
    by (cases "train_step n 0 (comps st)")
  have loss: "map_of batch_losses ''loss'' \<noteq> None" using assms(8) by (simp add: ts)
  from push_losses_returns[OF assms(7), of "avg_loss_dict st" batch_losses]
  obtain avg where avg: "push_losses (avg_loss_it cfg) (avg_loss_dict st) batch_losses = Inr avg"
    by blast
  obtain v where pop: "map_of (smooth_losses avg batch_losses) ''loss'' = Some v"
    using smooth_losses_keeps_key[OF loss, of avg] by auto
  have gates: "gate 0 (log_it cfg) (is_local_main_process cfg) = Inr True"
    "gate 0 (show_it cfg) (is_local_main_process cfg) = Inr True"
    "gate 0 (save_it cfg) (is_local_main_process cfg) = Inr True"
    "gate 0 (eval_it cfg) (0 < len_val_dataset cfg) = Inr (0 < len_val_dataset cfg)"
    using assms(1-5) by (simp_all add: gate_nonzero)
  let ?fs = "save_checkpoint (optimize_inputs (flags cfg)) c1 0 0 0 (files st)"
  have saved: "\<exists>d. map_of ?fs (IterDir 0) = Some d
      \<and> model_pth d = Stored \<lparr>ck_it = 0, ck_sample_count = 0, ck_epoch = 0, ck_model = model c1\<rparr>"
    by (simp add: save_checkpoint_def read_dir_def Let_def update_conv')
  have run: "iteration cfg train_step n 0 0 st
      = Inr (st\<lparr>comps := c1, avg_loss_dict := avg, files := ?fs,
                 events := events st @ [Logged 0 (smooth_losses avg batch_losses)]
                   @ [Shown 0] @ [Saved 0]
                   @ (if 0 < len_val_dataset cfg then [Evaluated 0] else [])\<rparr>)"
    using ts avg pop gates assms(5,6)
    by (simp add: iteration_def py_truediv_def update_running_average_def pop_loss_def then_do_def)
  have "restore api opt_inputs fs None c = Inr (0, 0, c, [])" by (simp add: restore_def)
  with gates run saved show ?thesis by (auto simp: ts)
qed

theorem first_iteration_fires_witness:
  "\<exists>st' loss_dict d.
      iteration small_config stub_step 0 0 0 start_state = Inr st'
      \<and> events st' = [Logged 0 loss_dict, Shown 0, Saved 0, Evaluated 0]
      \<and> map_of (files st') (IterDir 0) = Some d"
proof -
  have "map_of (snd (stub_step 0 0 (comps start_state))) ''loss'' \<noteq> None"
    by (simp add: stub_step_def)
  from first_iteration_fires[of small_config stub_step 0 start_state, OF _ _ _ _ _ _ _ this]
  show ?thesis by (simp add: small_config_def start_state_def) blast
qed

text \<open>On a process that is not the local main process of its machine, an iteration whose
  evaluation gate is open (line 366) raises \<^verbatim>\<open>NameError\<close> at line 384: none of the gates
  of lines 314, 316 and 342 opens there, and the first validation batch reads
  \<^verbatim>\<open>output_dir\<close>.\<close>

theorem iteration_raises_off_main_process:
  assumes "\<not> is_local_main_process cfg" and "0 < len_val_dataset cfg"
    and "eval_it cfg \<noteq> 0" and "it mod eval_it cfg = 0"
    and "log_it cfg \<noteq> 0" and "show_it cfg \<noteq> 0" and "save_it cfg \<noteq> 0"
    and "0 < len_train_dataset cfg" and "0 \<le> avg_loss_it cfg"
  shows "iteration cfg train_step n it sample_count st = Inl NameError"
proof -
  obtain c batch_losses where ts: "train_step n it (comps st) = (c, batch_losses)"
    by (cases "train_step n it (comps st)")
  from push_losses_returns[OF assms(9), of "avg_loss_dict st" batch_losses]
  obtain avg where avg: "push_losses (avg_loss_it cfg) (avg_loss_dict st) batch_losses = Inr avg"
    by blast
  show ?thesis
    using assms ts avg
    by (simp add: iteration_def py_truediv_def update_running_average_def gate_nonzero then_do_def)
qed

theorem iteration_raises_off_main_process_witness:
  "\<not> is_local_main_process other_process_config
   \<and> iteration other_process_config stub_step 0 0 0 start_state = Inl NameError"
  using iteration_raises_off_main_process[of other_process_config 0 stub_step 0 0 start_state]
  by (simp add: other_process_config_def small_config_def)

section \<open>Properties of the validation mean\<close>

lemma acc_plus_append: "acc_plus ar (acc_plus ar a vs) ws = acc_plus ar a (vs @ ws)"
  by (simp add: acc_plus_def)

lemma acc_plus_Some:
  "acc_plus ar (Some s) vs = Some (fold (\<lambda>x s. tensor_add ar s x) vs s)"
  by (induction vs arbitrary: s) (simp_all add: acc_plus_def)

lemma acc_plus_None: "vs \<noteq> [] \<Longrightarrow> acc_plus ar None vs = Some (running_sum ar vs)"
proof (cases vs)
  case Nil
  assume "vs \<noteq> []"
  with Nil show ?thesis by simp
next
  case (Cons v rest)
  have "acc_plus ar None (v # rest) = acc_plus ar (Some v) rest" by (simp add: acc_plus_def)
  then show ?thesis by (simp add: Cons acc_plus_Some)
qed

lemma add_dict_to_Cons:
  "add_dict_to ar acc ((k, v) # rest)
     = add_dict_to ar (AList.update k (case map_of acc k of None \<Rightarrow> v | Some s \<Rightarrow> tensor_add ar s v) acc) rest"
  by (simp add: add_dict_to_def)

lemma add_dict_to_lookup:
  "map_of (add_dict_to ar acc loss_dict) key = acc_plus ar (map_of acc key) (values_of key loss_dict)"
proof (induction loss_dict arbitrary: acc)
  case Nil
  then show ?case by (simp add: add_dict_to_def acc_plus_def values_of_def)
next
  case (Cons kv rest)
  obtain k v where kv: "kv = (k, v)" by (cases kv)
  show ?case
    unfolding kv add_dict_to_Cons Cons.IH values_of_Cons
    by (simp add: update_conv' acc_plus_def)
qed

lemma add_dict_to_keys_same:
  "set (map fst loss_dict) \<subseteq> set (map fst acc) \<Longrightarrow> map fst (add_dict_to ar acc loss_dict) = map fst acc"
proof (induction loss_dict arbitrary: acc)
  case Nil
  then show ?case by (simp add: add_dict_to_def)
next
  case (Cons kv rest)
  obtain k v where kv: "kv = (k, v)" by (cases kv)
  let ?acc1 = "AList.update k (case map_of acc k of None \<Rightarrow> v | Some s \<Rightarrow> tensor_add ar s v) acc"
  have keys1: "map fst ?acc1 = map fst acc" using Cons.prems by (simp add: kv update_keys)
  then have "set (map fst rest) \<subseteq> set (map fst ?acc1)" using Cons.prems by simp
  from Cons.IH[OF this] keys1 show ?case by (simp add: kv add_dict_to_Cons)
qed

lemma add_dict_to_keys_new:
  "distinct (map fst loss_dict) \<Longrightarrow> set (map fst loss_dict) \<inter> set (map fst acc) = {} \<Longrightarrow>
   map fst (add_dict_to ar acc loss_dict) = map fst acc @ map fst loss_dict"
proof (induction loss_dict arbitrary: acc)
  case Nil
  then show ?case by (simp add: add_dict_to_def)
next
  case (Cons kv rest)
  obtain k v where kv: "kv = (k, v)" by (cases kv)
  let ?acc1 = "AList.update k (case map_of acc k of None \<Rightarrow> v | Some s \<Rightarrow> tensor_add ar s v) acc"
  have keys1: "map fst ?acc1 = map fst acc @ [k]" using Cons.prems(2) by (simp add: kv update_keys)
  have "distinct (map fst rest)" "set (map fst rest) \<inter> set (map fst ?acc1) = {}"
    using Cons.prems keys1 by (auto simp: kv)
  from Cons.IH[OF this] keys1 show ?case by (simp add: kv add_dict_to_Cons)
qed

lemma eval_batches_main:
  "\<exists>acc'. eval_batches ar True batches acc n = Inr (acc', n + length batches)
      \<and> (\<forall>key. map_of acc' key = acc_plus ar (map_of acc key) (pushed key batches))
      \<and> (list_all (\<lambda>b. map fst b = map fst acc) batches \<longrightarrow> map fst acc' = map fst acc)"
proof (induction batches arbitrary: acc n)
  case Nil
  then show ?case by (simp add: pushed_def acc_plus_def)
next
  case (Cons b rest)
  from Cons.IH[of "add_dict_to ar acc b" "n + 1"] obtain acc' where
    run: "eval_batches ar True rest (add_dict_to ar acc b) (n + 1) = Inr (acc', n + 1 + length rest)"
    and look: "\<And>key. map_of acc' key = acc_plus ar (map_of (add_dict_to ar acc b) key) (pushed key rest)"
    and keys: "list_all (\<lambda>b'. map fst b' = map fst (add_dict_to ar acc b)) rest \<longrightarrow>
                 map fst acc' = map fst (add_dict_to ar acc b)"
    by blast
  have "map_of acc' key = acc_plus ar (map_of acc key) (pushed key (b # rest))" for key
    using look[of key] by (simp add: add_dict_to_lookup acc_plus_append pushed_def)
  moreover have "map fst acc' = map fst acc"
    if "list_all (\<lambda>b. map fst b = map fst acc) (b # rest)"
  proof -
    have "map fst (add_dict_to ar acc b) = map fst acc"
      using that by (intro add_dict_to_keys_same) simp
    with keys that show ?thesis by simp
  qed
  ultimately show ?case using run by simp
qed

lemma pushed_nonempty:
  assumes "batches \<noteq> []" and "list_all (\<lambda>b. map fst b = ks) batches" and "key \<in> set ks"
  shows "pushed key batches \<noteq> []"
proof -
  obtain b rest where br: "batches = b # rest" using assms(1) by (cases batches) auto
  then have "key \<in> fst ` set b" using assms(2,3) by auto
  then have "values_of key b \<noteq> []" by (auto simp: values_of_def filter_empty_conv)
  then show ?thesis by (simp add: br pushed_def)
qed

lemma dict_by_keys:
  "distinct (map fst r) \<Longrightarrow> r = map (\<lambda>k. (k, the (map_of r k))) (map fst r)"
proof (induction r)
  case Nil
  then show ?case by simp
next
  case (Cons kv rest)
  obtain k v where kv: "kv = (k, v)" by (cases kv)
  from Cons.prems have d: "distinct (map fst rest)" and nk: "k \<notin> fst ` set rest" by (simp_all add: kv)
  have "map (\<lambda>k'. (k', the (map_of ((k, v) # rest) k'))) (map fst rest)
          = map (\<lambda>k'. (k', the (map_of rest k'))) (map fst rest)"
    using nk by (intro map_cong) auto
  with Cons.IH[OF d] show ?case by (simp add: kv)
qed

lemma update_new_key: "k \<notin> fst ` set al \<Longrightarrow> AList.update k v al = al @ [(k, v)]"
  by (induction al) auto

lemma eval_worker_report:
  assumes "distinct ks" and "''num_batches'' \<notin> set ks"
    and "batches \<noteq> []" and "list_all (\<lambda>b. map fst b = ks) batches"
  shows "eval_worker ar True batches = Inr (worker_report ar ks batches)"
proof -
  obtain b rest where br: "batches = b # rest" using assms(3) by (cases batches) auto
  from eval_batches_main[of ar batches "[]" 0] obtain acc' where
    run: "eval_batches ar True batches [] 0 = Inr (acc', length batches)"
    and look: "\<And>key. map_of acc' key = acc_plus ar None (pushed key batches)"
    by auto
  have first: "map fst (add_dict_to ar [] b) = ks"
    using add_dict_to_keys_new[of b "[]" ar] assms(1,4) by (simp add: br)
  from eval_batches_main[of ar rest "add_dict_to ar [] b" 1] obtain acc'' where
    run': "eval_batches ar True rest (add_dict_to ar [] b) 1 = Inr (acc'', 1 + length rest)"
    and "list_all (\<lambda>b'. map fst b' = map fst (add_dict_to ar [] b)) rest \<longrightarrow>
           map fst acc'' = map fst (add_dict_to ar [] b)"
    by blast
  then have "map fst acc'' = ks" using first assms(4) by (simp add: br)
  moreover have "acc'' = acc'" using run run' by (simp add: br)
  ultimately have keys: "map fst acc' = ks" by simp
  have vals: "map_of acc' key = Some (running_sum ar (pushed key batches))" if "key \<in> set ks" for key
    using look[of key] pushed_nonempty[OF assms(3,4) that] by (simp add: acc_plus_None)
  have "distinct (map fst acc')" using keys assms(1) by simp
  from dict_by_keys[OF this] have "acc' = map (\<lambda>k. (k, the (map_of acc' k))) ks"
    using keys by simp
  also have "\<dots> = map (\<lambda>k. (k, running_sum ar (pushed k batches))) ks"
    using vals by (intro map_cong) auto
  finally have acc': "acc' = map (\<lambda>k. (k, running_sum ar (pushed k batches))) ks" .
  have "''num_batches'' \<notin> fst ` set acc'" using keys assms(2) by (metis set_map)
  then have "AList.update ''num_batches'' (real (length batches)) acc'
               = acc' @ [(''num_batches'', real (length batches))]"
    by (rule update_new_key)
  then show ?thesis
    using run acc' by (simp add: eval_worker_def then_do_def worker_report_def)
qed

lemma all_reports_aligned:
  assumes "distinct ks" and "''num_batches'' \<notin> set ks"
    and "list_all (\<lambda>(is_local_main, batches). is_local_main \<and> batches \<noteq> []
                    \<and> list_all (\<lambda>b. map fst b = ks) batches) workers"
  shows "all_reports ar workers = Inr (map (\<lambda>w. worker_report ar ks (snd w)) workers)"
  using assms(3)
proof (induction workers)
  case Nil
  then show ?case by simp
next
  case (Cons w rest)
  obtain is_local_main batches where w: "w = (is_local_main, batches)" by (cases w)
  from Cons.prems have m: "is_local_main" and ne: "batches \<noteq> []"
    and ks: "list_all (\<lambda>b. map fst b = ks) batches" by (simp_all add: w)
  have "eval_worker ar True batches = Inr (worker_report ar ks batches)"
    by (rule eval_worker_report[OF assms(1,2) ne ks])
  moreover have "all_reports ar rest = Inr (map (\<lambda>w. worker_report ar ks (snd w)) rest)"
    using Cons.IH Cons.prems by simp
  ultimately show ?case using m by (simp add: w then_do_def)
qed

lemma map_of_nth:
  assumes "distinct (map fst r)" and "i < length r"
  shows "map_of r (fst (r ! i)) = Some (snd (r ! i))"
  using assms by (intro map_of_is_SomeI) (auto simp: nth_mem)

lemma gather_aligned:
  assumes "distinct ks" and "reports \<noteq> []" and "list_all (\<lambda>r. map fst r = ks) reports"
  shows "gather reports = Inr (map (\<lambda>k. (k, map (\<lambda>r. the (map_of r k)) reports)) ks)"
proof -
  obtain local rest where lr: "reports = local # rest" using assms(2) by (cases reports) auto
  have keys: "map fst r = ks" if "r \<in> set reports" for r
    using assms(3) that by (simp add: list_all_iff)
  have local: "map fst local = ks" using keys by (simp add: lr)
  then have len: "length local = length ks" by (metis length_map)
  have all: "list_all (\<lambda>r. map fst r = map fst local) reports"
    using assms(3) local by simp
  have entry: "(fst (local ! i), map (\<lambda>r. snd (r ! i)) reports)
                 = (ks ! i, map (\<lambda>r. the (map_of r (ks ! i))) reports)" if i: "i < length ks" for i
  proof -
    have "fst (local ! i) = ks ! i" using local i len by (metis nth_map)
    moreover have "snd (r ! i) = the (map_of r (ks ! i))" if r: "r \<in> set reports" for r
    proof -
      have k: "map fst r = ks" using keys[OF r] .
      then have l: "i < length r" using i by (metis length_map)
      have "distinct (map fst r)" using assms(1) k by simp
      from map_of_nth[OF this l] have "map_of r (fst (r ! i)) = Some (snd (r ! i))" .
      moreover have "fst (r ! i) = ks ! i" using k l by (metis nth_map)
      ultimately show ?thesis by simp
    qed
    ultimately show ?thesis by simp
  qed
  have "map (\<lambda>i. (fst (local ! i), map (\<lambda>r. snd (r ! i)) reports)) [0..<length local]
          = map (\<lambda>i. (ks ! i, map (\<lambda>r. the (map_of r (ks ! i))) reports)) [0..<length ks]"
    using entry by (simp add: len)
  also have "\<dots> = map (\<lambda>k. (k, map (\<lambda>r. the (map_of r k)) reports)) (map (\<lambda>i. ks ! i) [0..<length ks])"
    by (simp add: comp_def)
  also have "map (\<lambda>i. ks ! i) [0..<length ks] = ks" by (rule map_nth)
  finally show ?thesis using all by (simp add: gather_def lr)
qed

lemma worker_report_keys: "map fst (worker_report ar ks batches) = ks @ [''num_batches'']"
  by (simp add: worker_report_def comp_def)

lemma worker_report_count:
  "''num_batches'' \<notin> set ks \<Longrightarrow>
   map_of (worker_report ar ks batches) ''num_batches'' = Some (real (length batches))"
  by (simp add: worker_report_def map_add_def map_of_map_restrict restrict_map_def)

lemma worker_report_term:
  "k \<in> set ks \<Longrightarrow> map_of (worker_report ar ks batches) k = Some (running_sum ar (pushed k batches))"
  by (simp add: worker_report_def map_add_def map_of_map_restrict restrict_map_def)

lemma gather_worker_reports:
  assumes "distinct ks" and "''num_batches'' \<notin> set ks" and "workers \<noteq> []"
  shows "gather (map (\<lambda>w. worker_report ar ks (snd w)) workers)
           = Inr (map (\<lambda>k. (k, map (\<lambda>w. running_sum ar (pushed k (snd w))) workers)) ks
                  @ [(''num_batches'', map (\<lambda>w. real (length (snd w))) workers)])"
proof -
  let ?reports = "map (\<lambda>w. worker_report ar ks (snd w)) workers"
  have d: "distinct (ks @ [''num_batches''])" using assms(1,2) by simp
  have ne: "?reports \<noteq> []" using assms(3) by simp
  have al: "list_all (\<lambda>r. map fst r = ks @ [''num_batches'']) ?reports"
    by (simp add: list_all_iff worker_report_keys)
  have terms: "map (\<lambda>r. the (map_of r k)) ?reports = map (\<lambda>w. running_sum ar (pushed k (snd w))) workers"
    if "k \<in> set ks" for k
    using that by (simp add: worker_report_term comp_def)
  have counts: "map (\<lambda>r. the (map_of r ''num_batches'')) ?reports = map (\<lambda>w. real (length (snd w))) workers"
    using assms(2) by (simp add: worker_report_count comp_def)
  have "map (\<lambda>k. (k, map (\<lambda>r. the (map_of r k)) ?reports)) ks
          = map (\<lambda>k. (k, map (\<lambda>w. running_sum ar (pushed k (snd w))) workers)) ks"
    using terms by (intro map_cong) auto
  then show ?thesis
    unfolding gather_aligned[OF d ne al] using counts by simp
qed

lemma divide_terms_nonzero:
  assumes "n \<noteq> 0"
  shows "divide_terms ar n g = Inr (map (\<lambda>(k, vs). (k, float_div ar (tensor_sum ar vs) n)) g)"
  using assms by (induction g) (auto simp: then_do_def)

lemma average_validation_terms:
  assumes "''num_batches'' \<notin> set ks" and "sum_list counts \<noteq> 0"
  shows "average_validation ar (map (\<lambda>k. (k, f k)) ks @ [(''num_batches'', counts)])
           = Inr (map (\<lambda>k. (k, float_div ar (tensor_sum ar (f k)) (sum_list counts))) ks)"
proof -
  let ?g = "map (\<lambda>k. (k, f k)) ks"
  have nk: "''num_batches'' \<notin> fst ` set ?g" using assms(1) by (auto simp: image_iff)
  then have look: "map_of (?g @ [(''num_batches'', counts)]) ''num_batches'' = Some counts"
    by (simp add: map_add_def map_of_eq_None_iff[THEN iffD2])
  have del: "AList.delete ''num_batches'' (?g @ [(''num_batches'', counts)]) = ?g"
    using assms(1) by (induction ks) auto
  show ?thesis
    unfolding average_validation_def dict_pop_def look del
    by (simp add: then_do_def divide_terms_nonzero[OF assms(2)] comp_def)
qed

lemma evaluate_aligned:
  assumes "aligned ks workers"
  shows "evaluate ar workers
           = Inr (map (\<lambda>k. (k, float_div ar
                                  (tensor_sum ar (map (\<lambda>w. running_sum ar (pushed k (snd w))) workers))
                                  (real (sum_list (map (\<lambda>w. length (snd w)) workers))))) ks)"
proof -
  have d: "distinct ks" and nb: "''num_batches'' \<notin> set ks" and ne: "workers \<noteq> []"
    and ws: "list_all (\<lambda>(is_local_main, batches). is_local_main \<and> batches \<noteq> []
                    \<and> list_all (\<lambda>b. map fst b = ks) batches) workers"
    using assms by (simp_all add: aligned_def)
  obtain w0 where w0: "w0 \<in> set workers" using ne by (cases workers) auto
  then have "snd w0 \<noteq> []" using ws by (auto simp: list_all_iff)
  then have "0 < length (snd w0)" by simp
  then have "sum_list (map (\<lambda>w. length (snd w)) workers) \<noteq> 0"
    using w0 by (auto simp: sum_list_eq_0_iff)
  moreover have cnt: "sum_list (map (\<lambda>w. real (length (snd w))) workers)
               = real (sum_list (map (\<lambda>w. length (snd w)) workers))"
    by (induction workers) simp_all
  ultimately have pos: "sum_list (map (\<lambda>w. real (length (snd w))) workers) \<noteq> 0"
    by simp
  show ?thesis
    unfolding evaluate_def all_reports_aligned[OF d nb ws]
    using average_validation_terms[OF nb pos, where ar = ar
        and f = "\<lambda>k. map (\<lambda>w. running_sum ar (pushed k (snd w))) workers"]
    by (simp add: then_do_def gather_worker_reports[OF d nb ne] cnt)
qed







lemma running_sum_exact: "running_sum exact_arith vs = sum_list vs"
proof (cases vs)
  case Nil
  then show ?thesis by simp
next
  case (Cons v rest)
  have "fold (\<lambda>x s. s + x) rest a = a + sum_list rest" for a :: real
    by (induction rest arbitrary: a) simp_all
  then show ?thesis by (simp add: Cons exact_arith_def)
qed

lemma pushed_concat: "pushed k (concat bss) = concat (map (pushed k) bss)"
  by (induction bss) (simp_all add: pushed_def)

lemma sum_list_concat_real: "sum_list (concat xss) = sum_list (map sum_list xss)" for xss :: "real list list"
  by (induction xss) simp_all

lemma aligned_concat:
  assumes "aligned ks workers"
  shows "aligned ks [(True, concat (map snd workers))]"
proof -
  have ne: "workers \<noteq> []"
    and ws: "\<And>w. w \<in> set workers \<Longrightarrow> snd w \<noteq> [] \<and> list_all (\<lambda>b. map fst b = ks) (snd w)"
    using assms by (auto simp: aligned_def list_all_iff)
  obtain w0 rest where "workers = w0 # rest" using ne by (cases workers) auto
  then have "concat (map snd workers) \<noteq> []" using ws[of w0] by simp
  moreover have "list_all (\<lambda>b. map fst b = ks) (concat (map snd workers))"
    using ws by (auto simp: list_all_iff)
  ultimately show ?thesis using assms by (simp add: aligned_def)
qed

lemma evaluate_exact:
  assumes "aligned ks workers"
  shows "evaluate exact_arith workers
           = Inr (map (\<lambda>k. (k, sum_list (pushed k (concat (map snd workers)))
                                 / real (length (concat (map snd workers))))) ks)"
proof -
  have s: "sum_list (map (\<lambda>w. sum_list (pushed k (snd w))) workers)
             = sum_list (pushed k (concat (map snd workers)))" for k
    by (simp add: pushed_concat sum_list_concat_real comp_def)
  have n: "sum_list (map (\<lambda>w. length (snd w)) workers) = length (concat (map snd workers))"
    by (simp add: length_concat comp_def)
  show ?thesis
    unfolding evaluate_aligned[OF assms] running_sum_exact
    by (simp add: exact_arith_def s n)
qed

text \<open>When every worker is the local main process of its machine (one process per
  machine), has a batch, and all batches carry the same loss terms, none of them named
  \<^verbatim>\<open>num_batches\<close>, the evaluation returns for every term the quotient, taken with the
  division of the loss arithmetic, of the sum of the workers' running sums, taken with
  its tensor sum, and the exact sum of the batch counts.\<close>

theorem validation_mean_of_main_workers:
  assumes "aligned ks workers"
  shows "evaluate ar workers
           = Inr (map (\<lambda>k. (k, float_div ar
                                  (tensor_sum ar (map (\<lambda>w. running_sum ar (pushed k (snd w))) workers))
                                  (real (sum_list (map (\<lambda>w. length (snd w)) workers))))) ks)"
  by (rule evaluate_aligned[OF assms])

lemma two_machines_aligned: "aligned [''loss'', ''rgb''] two_machines"
  by (simp add: aligned_def two_machines_def)

text \<open>Two machines, two batches each: the means of 1, 2, 3, 6 and of 10, 20, 30, 40.\<close>

theorem validation_mean_of_main_workers_witness:
  "aligned [''loss'', ''rgb''] two_machines
   \<and> evaluate exact_arith two_machines = Inr [(''loss'', 3), (''rgb'', 25)]"
  using validation_mean_of_main_workers[of "[''loss'', ''rgb'']" two_machines exact_arith]
  by (simp add: aligned_def two_machines_def exact_arith_def pushed_def values_of_def)

text \<open>With the arithmetic of the real numbers in place of floating point, the value of
  every term is the mean of the values of all batches of all workers, and it is the
  value a single process computes over the concatenation of the workers' batches.\<close>

theorem exact_validation_mean:
  assumes "aligned ks workers"
  shows "evaluate exact_arith workers
           = Inr (map (\<lambda>k. (k, sum_list (pushed k (concat (map snd workers)))
                                 / real (length (concat (map snd workers))))) ks)
         \<and> evaluate exact_arith [(True, concat (map snd workers))] = evaluate exact_arith workers"
  using evaluate_exact[OF assms] evaluate_exact[OF aligned_concat[OF assms]] by simp

text \<open>The two machines again, and one process with their four batches.\<close>

theorem exact_validation_mean_witness:
  "aligned [''loss'', ''rgb''] two_machines
   \<and> evaluate exact_arith two_machines = Inr [(''loss'', 3), (''rgb'', 25)]
   \<and> evaluate exact_arith [(True, concat (map snd two_machines))] = evaluate exact_arith two_machines"
  using exact_validation_mean[of "[''loss'', ''rgb'']" two_machines]
  by (simp add: aligned_def two_machines_def pushed_def values_of_def)


text \<open>The batch count is kept in the dictionary of the loss sums under the key
  \<^verbatim>\<open>num_batches\<close> (line 387) and taken out again before the division (line 392): a loss
  term of that name is overwritten by the count and has no validation mean. Here the
  two batches have the terms \<^verbatim>\<open>loss\<close>, with values 1 and 3, and \<^verbatim>\<open>num_batches\<close>, with
  values 5 and 7.\<close>

theorem num_batches_term_is_dropped:
  "evaluate exact_arith reserved_term_machine = Inr [(''loss'', 2)]"
  by (simp add: evaluate_def eval_worker_def add_dict_to_def exact_arith_def
      reserved_term_machine_def gather_def average_validation_def dict_pop_def then_do_def)

section \<open>Properties of floating point validation sums\<close>

lemma round_half_even_near:
  assumes "\<bar>x - of_int n\<bar> < 1 / 2"
  shows "round_half_even x = n"
proof -
  consider "\<lfloor>x\<rfloor> = n" | "\<lfloor>x\<rfloor> = n - 1"
    using assms by (cases "of_int n \<le> x") (auto simp: floor_eq_iff abs_if split: if_splits; linarith)+
  then show ?thesis
  proof cases
    case 1
    then show ?thesis using assms by (auto simp: round_half_even_def Let_def abs_if split: if_splits)
  next
    case 2
    then show ?thesis using assms by (auto simp: round_half_even_def Let_def abs_if split: if_splits)
  qed
qed

lemma round_to_near:
  assumes "2 powr of_int e \<le> x" and "x < 2 powr of_int (e + 1)"
    and "u = 2 powr of_int (e - int p + 1)"
    and "\<bar>x / u - of_int n\<bar> < 1 / 2"
  shows "round_to p x = of_int n * u"
proof -
  have pos: "0 < x" using assms(1) by (smt (verit) powr_gt_zero)
  then have "\<lfloor>log 2 \<bar>x\<bar>\<rfloor> = e"
    using assms(1,2) by (simp add: floor_log_eq_powr_iff)
  then show ?thesis
    using pos assms(3) round_half_even_near[OF assms(4)] by (simp add: round_to_def Let_def)
qed

lemma round_one: "round_to 24 1 = 1"
  using round_to_near[of 0 1 "1 / 2 ^ 23" 24 "2 ^ 23"] by (simp add: powr_minus_divide)

lemma round_one_plus_small: "round_to 24 (1 + small_loss) = 1"
  using round_to_near[of 0 "1 + small_loss" "1 / 2 ^ 23" 24 "2 ^ 23"] by (simp add: small_loss_def powr_minus_divide)

lemma round_small_plus_small: "round_to 24 (small_loss + small_loss) = 2 * small_loss"
  using round_to_near[of "-24" "small_loss + small_loss" "1 / 2 ^ 47" 24 "3 * 2 ^ 22"] by (simp add: small_loss_def powr_minus_divide)

lemma round_one_plus_two_small: "round_to 24 (1 + 2 * small_loss) = 1 + 1 / 2 ^ 23"
  using round_to_near[of 0 "1 + 2 * small_loss" "1 / 2 ^ 23" 24 "2 ^ 23 + 1"] by (simp add: small_loss_def powr_minus_divide)

lemma round_quarter: "round_to 53 (1 / 4) = 1 / 4"
  using round_to_near[of "-2" "1 / 4" "1 / 2 ^ 54" 53 "2 ^ 52"] by (simp add: powr_minus_divide)

lemma round_quotient: "round_to 53 ((1 + 1 / 2 ^ 23) / 4) = (1 + 1 / 2 ^ 23) / 4"
  using round_to_near[of "-2" "(1 + 1 / 2 ^ 23) / 4" "1 / 2 ^ 54" 53 "2 ^ 52 + 2 ^ 29"] by (simp add: powr_minus_divide)

lemma round_two_small: "round_to 24 (2 * small_loss) = 2 * small_loss"
  using round_small_plus_small by simp

lemma round_one_plus_two_small_value: "round_to 24 (1 + 2 * small_loss) = 8388609 / 8388608"
  using round_one_plus_two_small by simp

lemma round_quotient_value: "round_to 53 (8388609 / 33554432) = 8388609 / 33554432"
  using round_quotient by simp

lemma float_machines_aligned: "aligned [''loss''] float_machines"
  by (simp add: aligned_def float_machines_def)

lemma float_machines_concat:
  "concat (map snd float_machines) = [[(''loss'', 1)], [(''loss'', small_loss)], [(''loss'', small_loss)], [(''loss'', small_loss)]]"
  by (simp add: float_machines_def)

lemma one_process_aligned: "aligned [''loss''] [(True, concat (map snd float_machines))]"
  by (simp add: aligned_def float_machines_concat)

text \<open>With floating point sums the validation mean depends on how the batches are
  divided among the workers. Two machines, each the local main process, hold the
  \<^verbatim>\<open>float32\<close> losses 1, \<open>small_loss\<close> and \<open>small_loss\<close>, \<open>small_loss\<close>. The second machine's
  sum is \<open>2 * small_loss\<close>, which added to 1 rounds up to the next number after 1; one
  process over the same four batches adds \<open>small_loss\<close> to 1 three times, and each
  addition rounds back to 1.\<close>

theorem float_mean_depends_on_sharding:
  "evaluate (float_arith 24) float_machines = Inr [(''loss'', (1 + 1 / 2 ^ 23) / 4)]
   \<and> evaluate (float_arith 24) [(True, concat (map snd float_machines))] = Inr [(''loss'', 1 / 4)]"
proof
  show "evaluate (float_arith 24) float_machines = Inr [(''loss'', (1 + 1 / 2 ^ 23) / 4)]"
    unfolding evaluate_aligned[OF float_machines_aligned]
    by (simp add: float_machines_def float_arith_def pushed_def values_of_def round_one round_one_plus_small round_two_small round_one_plus_two_small_value round_quotient_value)
  show "evaluate (float_arith 24) [(True, concat (map snd float_machines))] = Inr [(''loss'', 1 / 4)]"
    unfolding evaluate_aligned[OF one_process_aligned]
    by (simp add: float_machines_concat float_arith_def pushed_def values_of_def round_one round_one_plus_small round_quarter)
qed


section \<open>Further properties of the substitution and of resuming\<close>

text \<open>
  Every non-zero \<^verbatim>\<open>fixed_id\<close> is used as the id of every row, whatever ids the batch
  carries (line 232).
\<close>

theorem fixed_id_nonzero_is_used:
  assumes "f \<noteq> 0" and "tensor_at (heap env) (inputs env) ''id'' = Some (Ids js)"
  shows "select_ids (Some f) env = Inr (Ids (replicate (length js) f))"
  using assms
  by (auto simp: select_ids_def tensor_at_def getitem_def load_tensor_def then_do_def truthy_def
      full_like_def map_replicate_const split: option.splits if_splits)

theorem fixed_id_nonzero_is_used_witness:
  "select_ids (Some 2) expr_batch = Inr (Ids [2, 2])"
proof -
  have "tensor_at (heap expr_batch) (inputs expr_batch) ''id'' = Some (Ids [1, 2])"
    by (simp add: tensor_at_def expr_batch_def)
  from fixed_id_nonzero_is_used[OF _ this, of 2] show ?thesis by (simp add: numeral_2_eq_2)
qed

text \<open>resume on a process that is not the local main process\<close>

text \<open>
  \<^verbatim>\<open>checkpoints_dir\<close> is bound only on the local main process (lines 79-81) and read on
  every process (lines 184, 186): on another process the resume raises \<^verbatim>\<open>NameError\<close>
  unless a non-empty \<^verbatim>\<open>load_from\<close> is given without \<^verbatim>\<open>load_iteration\<close>.
\<close>

theorem resume_off_main_process:
  assumes "\<not> is_main" and "load_iteration \<noteq> None \<or> load_from = None \<or> load_from = Some []"
  shows "resume api opt_inputs is_main load_iteration load_from fs c = Inl NameError"
  using assms
  by (auto simp: resume_def resolve_checkpoint_def then_do_def split: option.splits)

text \<open>
  An absent or unreadable \<^verbatim>\<open>optimizer_input.pth\<close> does not abort the resume: its
  \<^verbatim>\<open>torch.load\<close> (line 209) stands inside the outer \<^verbatim>\<open>try\<close>. The input store is
  restored, the input optimizer and scheduler keep their state, and the message is the
  one of the outer handler, "Mismatched input parameters state.".
\<close>

theorem degraded_optimizer_input:
  assumes "resolve_checkpoint is_main load_iteration load_from fs = Inr (Some p)"
    and "d = read_dir fs p"
    and "model_pth d = Stored ms"
    and "model_load api (ck_model ms) (model c) = Inr (m, missing_keys, unexpected_keys)"
    and "optimizer_pth d = Stored os"
    and "optimizer_load api (ck_optimizer os) (optimizer c) = Inr opt"
    and "scheduler_load api (ck_scheduler os) (scheduler c) = Inr sch"
    and "input_pth d = Stored s"
    and "input_load api s (input_store c) = (ps, Inr (mk, uk))"
    and "optimizer_input_pth d = Absent \<or> optimizer_input_pth d = Corrupt"
  shows "resume api True is_main load_iteration load_from fs c
           = Inr (ck_it ms, ck_sample_count ms,
                  c\<lparr>model := m, optimizer := opt, scheduler := sch, input_store := ps\<rparr>,
                  report_keys UnexpectedModelKeys MissingModelKeys missing_keys unexpected_keys
                    @ report_keys UnexpectedInputKeys MissingInputKeys mk uk
                    @ [MismatchedInputState, LoadedFrom p])"
  using assms
  by (auto simp: resume_def restore_def restore_inputs_def then_do_def torch_load_def Let_def)


lemma targets_store_lookup:
  assumes "store_lookup key table ids env = Inr env'"
    and "tensor_at (heap env) (targets env) k = Some t"
  shows "tensor_at (heap env') (targets env') k = Some t"
  using assms store_lookup_keeps(1,3)[OF assms(1)]
  by (auto simp: tensor_at_def split: option.splits if_splits)

lemma targets_keep_original_other:
  assumes "keep_original key env = Inr env'" and "k \<noteq> key"
  shows "tensor_at (heap env') (targets env') k = tensor_at (heap env) (targets env) k"
  using assms by (auto simp: keep_original_def tensor_at_def elim!: then_do_InrE
      split: option.splits)

lemma targets_keep_original_same:
  assumes "keep_original key env = Inr env'"
  shows "tensor_at (heap env') (targets env') key = tensor_at (heap env) (inputs env) key"
  using assms by (auto simp: keep_original_def tensor_at_def getitem_def elim!: then_do_InrE
      split: option.splits)

lemma targets_write_translation:
  assumes "write_translation table ids env = Inr env'"
    and "tensor_at (heap env) (targets env) k = Some (Rows rs)"
  shows "tensor_at (heap env') (targets env') k = Some (Rows rs)"
proof -
  from assms(1) obtain a v t' where a: "a < length (heap env)"
      and t': "assign_translation (heap env ! a) v = Inr t'"
      and env': "env' = env\<lparr>heap := (heap env)[a := t']\<rparr>"
    unfolding write_translation_def
    by (auto simp: getitem_def load_tensor_def elim!: then_do_InrE split: option.splits if_splits)
  from assms(2) obtain b where b: "targets env k = Some b" "b < length (heap env)"
      "heap env ! b = Rows rs"
    by (auto simp: tensor_at_def split: option.splits if_splits)
  have "a \<noteq> b" using t' b(3) by (auto simp: assign_translation_def)
  then show ?thesis using env' b by (simp add: tensor_at_def)
qed

lemma substitution_step_target:
  assumes "then_do (keep_original key env) (store_lookup key table ids) = Inr env'"
    and "tensor_at (heap env) (inputs env) key = Some t"
  shows "tensor_at (heap env') (targets env') key = Some t"
proof -
  from assms(1) obtain env1 where k: "keep_original key env = Inr env1"
    and s: "store_lookup key table ids env1 = Inr env'"
    by (auto elim!: then_do_InrE)
  have "tensor_at (heap env1) (targets env1) key = Some t"
    using targets_keep_original_same[OF k] assms(2) by simp
  with s show ?thesis by (rule targets_store_lookup)
qed

lemma substitution_step_other_target:
  assumes "then_do (keep_original key env) (store_lookup key table ids) = Inr env'"
    and "k \<noteq> key" and "tensor_at (heap env) (targets env) k = Some t"
  shows "tensor_at (heap env') (targets env') k = Some t"
proof -
  from assms(1) obtain env1 where k: "keep_original key env = Inr env1"
    and s: "store_lookup key table ids env1 = Inr env'"
    by (auto elim!: then_do_InrE)
  have "tensor_at (heap env1) (targets env1) k = Some t"
    using targets_keep_original_other[OF k assms(2)] assms(3) by simp
  with s show ?thesis by (rule targets_store_lookup)
qed

lemma camera_step_target:
  assumes "(if optimize_camera fl
            then then_do (keep_original ''extrinsic'' env) (write_translation table ids)
            else Inr env) = Inr env'"
    and "k \<noteq> ''extrinsic''" and "tensor_at (heap env) (targets env) k = Some (Rows rs)"
  shows "tensor_at (heap env') (targets env') k = Some (Rows rs)"
proof (cases "optimize_camera fl")
  case True
  with assms(1) obtain env1 where k: "keep_original ''extrinsic'' env = Inr env1"
    and w: "write_translation table ids env1 = Inr env'"
    by (auto elim!: then_do_InrE)
  have "tensor_at (heap env1) (targets env1) k = Some (Rows rs)"
    using targets_keep_original_other[OF k assms(2)] assms(3) by simp
  with w show ?thesis by (rule targets_write_translation)
next
  case False
  with assms show ?thesis by simp
qed

text \<open>
  For expression and pose the entry of \<^verbatim>\<open>targets\<close> does keep the value the dataset
  supplied: lines 237 and 240 rebind \<^verbatim>\<open>inputs[key]\<close> to a new tensor, and nothing
  writes into the old one.
\<close>

theorem targets_keep_expression_and_pose:
  assumes "replace_optimizable_inputs fl ps fixed_id env = Inr env'"
  shows "(optimize_expression fl
            \<and> tensor_at (heap env) (inputs env) ''expression'' = Some (Rows re)
          \<longrightarrow> tensor_at (heap env') (targets env') ''expression'' = Some (Rows re))
       \<and> (optimize_pose fl
            \<and> tensor_at (heap env) (inputs env) ''pose'' = Some (Rows rp)
          \<longrightarrow> tensor_at (heap env') (targets env') ''pose'' = Some (Rows rp))"
proof -
  from assms obtain ids env1 env2 env3 where
    e1: "(if optimize_latent fl then store_lookup ''frame_latent'' (frame_latent ps) ids env
          else Inr env) = Inr env1"
    and e2: "(if optimize_expression fl
          then then_do (keep_original ''expression'' env1)
                 (store_lookup ''expression'' (expression ps) ids)
          else Inr env1) = Inr env2"
    and e3: "(if optimize_pose fl
          then then_do (keep_original ''pose'' env2) (store_lookup ''pose'' (pose ps) ids)
          else Inr env2) = Inr env3"
    and e4: "(if optimize_camera fl
          then then_do (keep_original ''extrinsic'' env3) (write_translation (cam_trans ps) ids)
          else Inr env3) = Inr env'"
    unfolding replace_optimizable_inputs_def
    by (elim then_do_InrE) blast
  have expr: "tensor_at (heap env') (targets env') ''expression'' = Some (Rows re)"
    if on: "optimize_expression fl"
      and t: "tensor_at (heap env) (inputs env) ''expression'' = Some (Rows re)"
  proof -
    have t1: "tensor_at (heap env1) (inputs env1) ''expression'' = Some (Rows re)"
      using e1 t tensor_at_store_lookup[of "''frame_latent''" _ _ env env1 "''expression''"]
      by (auto split: if_splits)
    have t2: "tensor_at (heap env2) (targets env2) ''expression'' = Some (Rows re)"
      using e2 on substitution_step_target[OF _ t1] by simp
    have t3: "tensor_at (heap env3) (targets env3) ''expression'' = Some (Rows re)"
      using e3 t2 substitution_step_other_target[of "''pose''" env2 _ _ env3 "''expression''"]
      by (auto split: if_splits)
    from camera_step_target[OF e4 _ t3] show ?thesis by simp
  qed
  have pose: "tensor_at (heap env') (targets env') ''pose'' = Some (Rows rp)"
    if on: "optimize_pose fl"
      and t: "tensor_at (heap env) (inputs env) ''pose'' = Some (Rows rp)"
  proof -
    have t1: "tensor_at (heap env1) (inputs env1) ''pose'' = Some (Rows rp)"
      using e1 t tensor_at_store_lookup[of "''frame_latent''" _ _ env env1 "''pose''"]
      by (auto split: if_splits)
    have t2: "tensor_at (heap env2) (inputs env2) ''pose'' = Some (Rows rp)"
      using e2 t1 substitution_step_keeps[of "''expression''" env1 _ _ env2 "''pose''"]
      by (auto split: if_splits)
    have t3: "tensor_at (heap env3) (targets env3) ''pose'' = Some (Rows rp)"
      using e3 on substitution_step_target[OF _ t2] by simp
    from camera_step_target[OF e4 _ t3] show ?thesis by simp
  qed
  from expr pose show ?thesis by blast
qed

lemma expr_batch_run:
  "replace_optimizable_inputs expr_flags expr_store None expr_batch =
     Inr \<lparr>heap = [Ids [1, 2], Rows [[5], [6]], Rows [[101], [102]]],
          inputs = [''id'' \<mapsto> 0, ''expression'' \<mapsto> 2],
          targets = [''expression'' \<mapsto> 1]\<rparr>"
  by (simp add: substitution_defs expr_flags_def expr_store_def expr_batch_def numeral_2_eq_2)

theorem targets_keep_expression_and_pose_witness:
  "\<exists>env'. replace_optimizable_inputs expr_flags expr_store None expr_batch = Inr env'
      \<and> tensor_at (heap env') (targets env') ''expression'' = Some (Rows [[5], [6]])
      \<and> tensor_at (heap env') (inputs env') ''expression'' = Some (Rows [[101], [102]])"
proof -
  have pre: "optimize_expression expr_flags
      \<and> tensor_at (heap expr_batch) (inputs expr_batch) ''expression'' = Some (Rows [[5], [6]])"
    by (simp add: expr_flags_def expr_batch_def tensor_at_def)
  from targets_keep_expression_and_pose[OF expr_batch_run, of "[[5], [6]]"] pre
  have "tensor_at (heap \<lparr>heap = [Ids [1, 2], Rows [[5], [6]], Rows [[101], [102]]],
          inputs = [''id'' \<mapsto> 0, ''expression'' \<mapsto> 2],
          targets = [''expression'' \<mapsto> 1]\<rparr>) (targets \<lparr>heap = [Ids [1, 2], Rows [[5], [6]], Rows [[101], [102]]],
          inputs = [''id'' \<mapsto> 0, ''expression'' \<mapsto> 2],
          targets = [''expression'' \<mapsto> 1]\<rparr>) ''expression'' = Some (Rows [[5], [6]])"
    by blast
  then show ?thesis by (simp add: expr_batch_run) (simp add: tensor_at_def)
qed


theorem resume_off_main_process_witness:
  "resume accepting_api True False (Some 5) None fs_with_input fresh_components = Inl NameError
   \<and> resume accepting_api True False None None fs_with_input fresh_components = Inl NameError"
proof -
  have a: "\<not> False" by simp
  have b: "Some (5::int) \<noteq> None \<or> (None :: string option) = None \<or> (None :: string option) = Some []"
    and c: "(None :: int option) \<noteq> None \<or> (None :: string option) = None \<or> (None :: string option) = Some []"
    by simp_all
  from resume_off_main_process[OF a b, of accepting_api True fs_with_input fresh_components]
       resume_off_main_process[OF a c, of accepting_api True fs_with_input fresh_components]
  show ?thesis by (rule conjI)
qed

theorem degraded_optimizer_input_witness:
  "resume accepting_api True True (Some 5) None fs_without_input_optimizer fresh_components
     = Inr (5, 40, \<lparr>model = 11, optimizer = 12, scheduler = 13, input_store = 14,
                    optimizer_input = 0, scheduler_input = 0\<rparr>,
            [MismatchedInputState, LoadedFrom (IterDir 5)])"
proof -
  have r: "resolve_checkpoint True (Some 5) None fs_without_input_optimizer = Inr (Some (IterDir 5))"
    by (simp add: resolve_checkpoint_def)
  show ?thesis
    using degraded_optimizer_input[OF r, of "read_dir fs_without_input_optimizer (IterDir 5)"
      "\<lparr>ck_it = 5, ck_sample_count = 40, ck_epoch = 20, ck_model = 11\<rparr>"
      accepting_api fresh_components 11 "[]" "[]"
      "\<lparr>ck_optimizer = 12, ck_scheduler = 13\<rparr>" 12 13 14 14 "[]" "[]"]
    by (simp add: example_defs fs_without_input_optimizer_def read_dir_def save_checkpoint_def
        empty_dir_def report_keys_def)
qed

text \<open>
  When the input optimizer refuses its saved state (line 212 raises), the resume goes
  on: the input store is restored and "Mismatched optimizer state for input
  parameters." is printed.
\<close>

theorem degraded_input_optimizer_state:
  assumes "resolve_checkpoint is_main load_iteration load_from fs = Inr (Some p)"
    and "d = read_dir fs p"
    and "model_pth d = Stored ms"
    and "model_load api (ck_model ms) (model c) = Inr (m, missing_keys, unexpected_keys)"
    and "optimizer_pth d = Stored os"
    and "optimizer_load api (ck_optimizer os) (optimizer c) = Inr opt"
    and "scheduler_load api (ck_scheduler os) (scheduler c) = Inr sch"
    and "input_pth d = Stored s"
    and "input_load api s (input_store c) = (ps, Inr (mk, uk))"
    and "optimizer_input_pth d = Stored ois"
    and "optimizer_input_load api (ck_optimizer ois) (optimizer_input c) = (oi, Some e)"
  shows "resume api True is_main load_iteration load_from fs c
           = Inr (ck_it ms, ck_sample_count ms,
                  c\<lparr>model := m, optimizer := opt, scheduler := sch, input_store := ps,
                    optimizer_input := oi\<rparr>,
                  report_keys UnexpectedModelKeys MissingModelKeys missing_keys unexpected_keys
                    @ report_keys UnexpectedInputKeys MissingInputKeys mk uk
                    @ [MismatchedInputOptimizer, LoadedFrom p])"
  using assms
  by (simp add: resume_def restore_def restore_inputs_def then_do_def torch_load_def Let_def)

theorem degraded_input_optimizer_state_witness:
  "resume refusing_optimizer_api True True (Some 5) None fs_with_input fresh_components
     = Inr (5, 40, \<lparr>model = 11, optimizer = 12, scheduler = 13, input_store = 14,
                    optimizer_input = 0, scheduler_input = 0\<rparr>,
            [MismatchedInputOptimizer, LoadedFrom (IterDir 5)])"
proof -
  have r: "resolve_checkpoint True (Some 5) None fs_with_input = Inr (Some (IterDir 5))"
    by (simp add: resolve_checkpoint_def)
  show ?thesis
    using degraded_input_optimizer_state[OF r, of "read_dir fs_with_input (IterDir 5)"
      "\<lparr>ck_it = 5, ck_sample_count = 40, ck_epoch = 20, ck_model = 11\<rparr>"
      refusing_optimizer_api fresh_components 11 "[]" "[]"
      "\<lparr>ck_optimizer = 12, ck_scheduler = 13\<rparr>" 12 13 14 14 "[]" "[]"
      "\<lparr>ck_optimizer = 15, ck_scheduler = 16\<rparr>" 0 ValueError]
    by (simp add: example_defs refusing_optimizer_api_def read_dir_def save_checkpoint_def
        empty_dir_def report_keys_def)
qed

end
